theory Spec2Isabelle
  imports Main "HOL-Library.Multiset"
begin

section \<open>Data model\<close>

text \<open>
  The rows of \<^verbatim>\<open>prisma/schema.prisma\<close> that the three route files touch.
  Timestamps are instants in milliseconds; identifiers are strings.
\<close>

datatype role = USER | ASSISTANT | SYSTEM

record chat =
  chat_id :: string
  chat_createdAt :: nat
  chat_updatedAt :: nat
  chat_userId :: string
  chat_title :: "string option"

record message =
  msg_id :: string
  msg_content :: string
  msg_role :: role
  msg_createdAt :: nat
  msg_chatId :: string
  msg_userId :: "string option"

text \<open>
  JavaScript values that travel as JSON: request bodies, the values kept in Redis and the
  \<^verbatim>\<open>chats\<close>/\<^verbatim>\<open>messages\<close> payload of a response. A string that holds JSON
  text is represented by the value the text denotes, so \<^verbatim>\<open>JSON.stringify(rows)\<close>
  is the array of the rows' objects. An object is the list of its properties, each key
  once; a date is the number of its instant.
\<close>

datatype json =
    JNull
  | JBool bool
  | JNum int
  | JStr string
  | JArr "json list"
  | JObj "(string \<times> json) list"

datatype db_error = Unavailable | ForeignKeyViolation

datatype error =
    LimiterError
  | RedisError
  | DbError db_error
  | ZodError "string list list"
  | SyntaxError

text \<open>The responses of the five handlers, by status code and body.\<close>

datatype outcome =
    TooManyRequests nat nat nat
  | Unauthorized
  | BadRequest string
  | ServerFault string error
  | ChatCreated string
  | MessageCreated message
  | ChatsListed json bool
  | MessagesListed json bool
  | DataStream "string list"

datatype limit_class = WriteClass | ReadClass

record ratelimit =
  rl_class :: limit_class
  tokens :: nat
  window :: nat

record decision =
  success :: bool
  limit :: nat
  reset :: nat
  remaining :: nat

text \<open>
  The shared state behind the handlers: the two tables of the relational store, the
  counter behind \<^verbatim>\<open>@default(cuid())\<close>, the Redis keys with their expiry instants,
  and the rate limiter's recorded hits per client key and class.
\<close>

record world =
  db_chats :: "chat list"
  db_messages :: "message list"
  next_cuid :: nat
  redis_kv :: "string \<rightharpoonup> (json \<times> nat)"
  rate_windows :: "string \<times> limit_class \<Rightarrow> nat list"

text \<open>
  What one request meets outside the handler: the \<^verbatim>\<open>x-forwarded-for\<close> header, the
  instant at which it is served, the user of the session that \<^verbatim>\<open>auth()\<close> resolves,
  which collaborator calls fail, the built-in \<^verbatim>\<open>JSON.parse\<close> on strings, and the
  fragments the generation backend yields before it completes. Reading the headers and
  \<^verbatim>\<open>auth()\<close> are taken to answer, and the backend to complete; what the handlers
  write to the console is left out.
\<close>

record env =
  forwarded_for :: "string option"
  now :: nat
  session_user :: "string option"
  limiter_ok :: bool
  redis_get_ok :: bool
  redis_set_ok :: bool
  redis_del_ok :: bool
  db_ok :: bool
  JSON_parse :: "string \<Rightarrow> json option"
  fragments :: "string list"

section \<open>Awaited calls that may throw\<close>

type_synonym 'a io = "world \<Rightarrow> (error + 'a) \<times> world"

definition ret :: "'a \<Rightarrow> 'a io" where
  "ret x w = (Inr x, w)"

definition throw :: "error \<Rightarrow> 'a io" where
  "throw e w = (Inl e, w)"

definition bind :: "'a io \<Rightarrow> ('a \<Rightarrow> 'b io) \<Rightarrow> 'b io" where
  "bind m f w = (case m w of (Inl e, w') \<Rightarrow> (Inl e, w') | (Inr x, w') \<Rightarrow> f x w')"

definition lift :: "error + 'a \<Rightarrow> 'a io" where
  "lift r = (case r of Inl e \<Rightarrow> throw e | Inr x \<Rightarrow> ret x)"

text \<open>\<^verbatim>\<open>try { ... } catch (error) { ... }\<close>: what was written before the throw stays written.\<close>

definition try_catch :: "'a io \<Rightarrow> (error \<Rightarrow> 'a) \<Rightarrow> world \<Rightarrow> 'a \<times> world" where
  "try_catch m h w = (case m w of (Inl e, w') \<Rightarrow> (h e, w') | (Inr r, w') \<Rightarrow> (r, w'))"

section \<open>Collaborators\<close>

subsection \<open>JavaScript values\<close>

fun truthy :: "json \<Rightarrow> bool" where
  "truthy JNull = False"
| "truthy (JBool b) = b"
| "truthy (JNum n) = (n \<noteq> 0)"
| "truthy (JStr s) = (s \<noteq> [])"
| "truthy (JArr xs) = True"
| "truthy (JObj kvs) = True"

fun role_name :: "role \<Rightarrow> string" where
  "role_name USER = ''USER''"
| "role_name ASSISTANT = ''ASSISTANT''"
| "role_name SYSTEM = ''SYSTEM''"

definition json_opt_string :: "string option \<Rightarrow> json" where
  "json_opt_string s = (case s of None \<Rightarrow> JNull | Some x \<Rightarrow> JStr x)"

definition chat_to_json :: "chat \<Rightarrow> json" where
  "chat_to_json c = JObj
     [(''id'', JStr (chat_id c)),
      (''createdAt'', JNum (int (chat_createdAt c))),
      (''updatedAt'', JNum (int (chat_updatedAt c))),
      (''userId'', JStr (chat_userId c)),
      (''title'', json_opt_string (chat_title c))]"

definition message_to_json :: "message \<Rightarrow> json" where
  "message_to_json m = JObj
     [(''id'', JStr (msg_id m)),
      (''content'', JStr (msg_content m)),
      (''role'', JStr (role_name (msg_role m))),
      (''createdAt'', JNum (int (msg_createdAt m))),
      (''chatId'', JStr (msg_chatId m)),
      (''userId'', json_opt_string (msg_userId m))]"

subsection \<open>Request parsing\<close>

text \<open>\<^verbatim>\<open>await req.json()\<close>: no body value when the text is not JSON.\<close>

definition req_json :: "json option \<Rightarrow> json io" where
  "req_json body = (case body of None \<Rightarrow> throw SyntaxError | Some j \<Rightarrow> ret j)"

fun z_string :: "json option \<Rightarrow> string option" where
  "z_string (Some (JStr s)) = Some s"
| "z_string _ = None"

fun z_string_optional :: "json option \<Rightarrow> string option option" where
  "z_string_optional None = Some None"
| "z_string_optional (Some (JStr s)) = Some (Some s)"
| "z_string_optional _ = None"

fun z_enum_role :: "json option \<Rightarrow> role option" where
  "z_enum_role (Some (JStr s)) =
     (if s = ''USER'' then Some USER
      else if s = ''ASSISTANT'' then Some ASSISTANT
      else if s = ''SYSTEM'' then Some SYSTEM
      else None)"
| "z_enum_role _ = None"

definition issue :: "string \<Rightarrow> 'a option \<Rightarrow> string list list" where
  "issue field r = (case r of None \<Rightarrow> [[field]] | Some _ \<Rightarrow> [])"

text \<open>\<^verbatim>\<open>ChatBodySchema.parse\<close> of chat/route.ts.\<close>

definition ChatBodySchema_parse :: "json \<Rightarrow> error + string option" where
  "ChatBodySchema_parse j =
     (case j of
        JObj kvs \<Rightarrow>
          (case z_string_optional (map_of kvs ''message'') of
             Some message \<Rightarrow> Inr message
           | None \<Rightarrow> Inl (ZodError [[''message'']]))
      | _ \<Rightarrow> Inl (ZodError [[]]))"

text \<open>\<^verbatim>\<open>bodySchema.parse\<close> of chat/messages/route.ts.\<close>

definition bodySchema_parse :: "json \<Rightarrow> error + (string \<times> string \<times> role)" where
  "bodySchema_parse j =
     (case j of
        JObj kvs \<Rightarrow>
          (let chatId = z_string (map_of kvs ''chatId'');
               content = z_string (map_of kvs ''content'');
               r = z_enum_role (map_of kvs ''role'')
           in case (chatId, content, r) of
                (Some c, Some t, Some r') \<Rightarrow> Inr (c, t, r')
              | _ \<Rightarrow> Inl (ZodError (issue ''chatId'' chatId @ issue ''content'' content
                                      @ issue ''role'' r)))
      | _ \<Rightarrow> Inl (ZodError [[]]))"

text \<open>\<^verbatim>\<open>bodySchema.parse\<close> of chat/aiResponse/route.ts.\<close>

definition aiBodySchema_parse :: "json \<Rightarrow> error + (string \<times> string)" where
  "aiBodySchema_parse j =
     (case j of
        JObj kvs \<Rightarrow>
          (let chatId = z_string (map_of kvs ''chatId'');
               content = z_string (map_of kvs ''content'')
           in case (chatId, content) of
                (Some c, Some t) \<Rightarrow> Inr (c, t)
              | _ \<Rightarrow> Inl (ZodError (issue ''chatId'' chatId @ issue ''content'' content)))
      | _ \<Rightarrow> Inl (ZodError [[]]))"

subsection \<open>Relational store\<close>

definition digit :: "nat \<Rightarrow> char" where
  "digit d = (if d = 0 then CHR ''0'' else if d = 1 then CHR ''1'' else if d = 2 then CHR ''2''
              else if d = 3 then CHR ''3'' else if d = 4 then CHR ''4'' else if d = 5 then CHR ''5''
              else if d = 6 then CHR ''6'' else if d = 7 then CHR ''7'' else if d = 8 then CHR ''8''
              else CHR ''9'')"

fun dec :: "nat \<Rightarrow> string" where
  "dec n = (if n < 10 then [digit n] else dec (n div 10) @ [digit (n mod 10)])"

declare dec.simps [simp del]

definition cuid :: "nat \<Rightarrow> string" where
  "cuid n = CHR ''c'' # dec n"

text \<open>
  \<^verbatim>\<open>db.chat.create\<close>: the row gets a new identifier and the current instant in both
  timestamp columns. The owner is the session's user, whose row is taken to exist.
\<close>

definition new_chat :: "env \<Rightarrow> string \<Rightarrow> string \<Rightarrow> world \<Rightarrow> chat" where
  "new_chat e title userId w =
     \<lparr>chat_id = cuid (next_cuid w), chat_createdAt = now e, chat_updatedAt = now e,
      chat_userId = userId, chat_title = Some title\<rparr>"

definition db_chat_create :: "env \<Rightarrow> string \<Rightarrow> string \<Rightarrow> chat io" where
  "db_chat_create e title userId w =
     (if \<not> db_ok e then (Inl (DbError Unavailable), w)
      else (Inr (new_chat e title userId w),
            w\<lparr>db_chats := db_chats w @ [new_chat e title userId w],
              next_cuid := Suc (next_cuid w)\<rparr>))"

text \<open>
  \<^verbatim>\<open>db.message.create\<close>: the relation \<^verbatim>\<open>chat Chat @relation(fields: [chatId], references: [id])\<close>
  makes the insert fail when no chat has this identifier.
\<close>

definition new_message ::
  "env \<Rightarrow> string \<Rightarrow> role \<Rightarrow> string \<Rightarrow> string option \<Rightarrow> world \<Rightarrow> message" where
  "new_message e content r chatId userId w =
     \<lparr>msg_id = cuid (next_cuid w), msg_content = content, msg_role = r,
      msg_createdAt = now e, msg_chatId = chatId, msg_userId = userId\<rparr>"

definition db_message_create ::
  "env \<Rightarrow> string \<Rightarrow> role \<Rightarrow> string \<Rightarrow> string option \<Rightarrow> message io" where
  "db_message_create e content r chatId userId w =
     (if \<not> db_ok e then (Inl (DbError Unavailable), w)
      else if chatId \<notin> set (map chat_id (db_chats w)) then (Inl (DbError ForeignKeyViolation), w)
      else (Inr (new_message e content r chatId userId w),
            w\<lparr>db_messages := db_messages w @ [new_message e content r chatId userId w],
              next_cuid := Suc (next_cuid w)\<rparr>))"

text \<open>
  \<^verbatim>\<open>findMany\<close> with \<^verbatim>\<open>where\<close> and \<^verbatim>\<open>orderBy\<close>. Rows with equal timestamps come in
  the order of a stable sort (the database promises no order among them).
\<close>

definition chats_of :: "string \<Rightarrow> world \<Rightarrow> chat list" where
  "chats_of userId w = rev (sort_key chat_createdAt (filter (\<lambda>c. chat_userId c = userId) (db_chats w)))"

definition messages_of :: "string \<Rightarrow> world \<Rightarrow> message list" where
  "messages_of chatId w = sort_key msg_createdAt (filter (\<lambda>m. msg_chatId m = chatId) (db_messages w))"

definition db_chat_findMany :: "env \<Rightarrow> string \<Rightarrow> chat list io" where
  "db_chat_findMany e userId w =
     (if \<not> db_ok e then (Inl (DbError Unavailable), w) else (Inr (chats_of userId w), w))"

definition db_message_findMany :: "env \<Rightarrow> string \<Rightarrow> message list io" where
  "db_message_findMany e chatId w =
     (if \<not> db_ok e then (Inl (DbError Unavailable), w) else (Inr (messages_of chatId w), w))"

subsection \<open>Redis\<close>

text \<open>\<^verbatim>\<open>redis.get\<close>: \<^verbatim>\<open>null\<close> for an absent key and for one whose expiry has passed.\<close>

definition live :: "nat \<Rightarrow> world \<Rightarrow> string \<Rightarrow> json option" where
  "live t w key =
     (case redis_kv w key of
        None \<Rightarrow> None
      | Some (v, expiry) \<Rightarrow> if expiry \<le> t then None else Some v)"

definition redis_get :: "env \<Rightarrow> string \<Rightarrow> json option io" where
  "redis_get e key w =
     (if \<not> redis_get_ok e then (Inl RedisError, w) else (Inr (live (now e) w key), w))"

text \<open>\<^verbatim>\<open>redis.set(key, value, { ex })\<close>: \<^verbatim>\<open>ex\<close> is in seconds.\<close>

definition redis_set :: "env \<Rightarrow> string \<Rightarrow> json \<Rightarrow> nat \<Rightarrow> unit io" where
  "redis_set e key v ex w =
     (if \<not> redis_set_ok e then (Inl RedisError, w)
      else (Inr (), w\<lparr>redis_kv := (redis_kv w)(key \<mapsto> (v, now e + ex * 1000))\<rparr>))"

definition redis_del :: "env \<Rightarrow> string \<Rightarrow> unit io" where
  "redis_del e key w =
     (if \<not> redis_del_ok e then (Inl RedisError, w)
      else (Inr (), w\<lparr>redis_kv := (redis_kv w)(key := None)\<rparr>))"

subsection \<open>Rate limiter\<close>

text \<open>
  The two limiters the route files construct with \<^verbatim>\<open>Ratelimit.slidingWindow(10, "10 s")\<close>
  and \<^verbatim>\<open>Ratelimit.slidingWindow(30, "10 s")\<close>.
\<close>

definition postReqRateLimit :: ratelimit where
  "postReqRateLimit = \<lparr>rl_class = WriteClass, tokens = 10, window = 10000\<rparr>"

definition getReqRateLimit :: ratelimit where
  "getReqRateLimit = \<lparr>rl_class = ReadClass, tokens = 30, window = 10000\<rparr>"

text \<open>
  Modelled from the spec: \<^verbatim>\<open>Ratelimit.limit\<close> belongs to the package
  \<^verbatim>\<open>@upstash/ratelimit\<close>, which is not among the source files. Following section 4.1,
  the decision counts the recorded requests of the client key whose instant lies in
  \<open>[now - W, now]\<close>.
\<close>

definition in_window :: "nat \<Rightarrow> nat \<Rightarrow> nat \<Rightarrow> bool" where
  "in_window W t h = (h \<le> t \<and> t \<le> h + W)"

text \<open>
  Modelled from the spec: the requests counted against a client, one window per client key
  and limit class (the read class and the write class have their own budgets).
\<close>

definition used :: "ratelimit \<Rightarrow> env \<Rightarrow> string \<Rightarrow> world \<Rightarrow> nat" where
  "used rl e key w = length (filter (in_window (window rl) (now e)) (rate_windows w (key, rl_class rl)))"

text \<open>Modelled from the spec: an admitted request is recorded with its instant.\<close>

definition record_hit :: "ratelimit \<Rightarrow> env \<Rightarrow> string \<Rightarrow> world \<Rightarrow> world" where
  "record_hit rl e key w =
     w\<lparr>rate_windows := (rate_windows w)
          ((key, rl_class rl) := now e # rate_windows w (key, rl_class rl))\<rparr>"

text \<open>
  Modelled from the spec: the limiter of section 4.1 in place of the absent package. It
  admits while fewer requests than the budget are counted and records the admitted request;
  a denial reports no remaining budget. An unreachable backing store makes the call throw.
  The specification fixes no value for \<^verbatim>\<open>reset\<close>; the end of the window that starts
  now is used.
\<close>

definition ratelimit_limit :: "ratelimit \<Rightarrow> env \<Rightarrow> string \<Rightarrow> decision io" where
  "ratelimit_limit rl e key w =
     (if \<not> limiter_ok e then (Inl LimiterError, w)
      else if used rl e key w < tokens rl
        then (Inr \<lparr>success = True, limit = tokens rl, reset = now e + window rl,
                   remaining = tokens rl - used rl e key w - 1\<rparr>,
              record_hit rl e key w)
        else (Inr \<lparr>success = False, limit = tokens rl, reset = now e + window rl,
                   remaining = 0\<rparr>, w))"

text \<open>\<^verbatim>\<open>headersList.get("x-forwarded-for") ?? "anonymous"\<close>\<close>

definition client_ip :: "env \<Rightarrow> string" where
  "client_ip e = (case forwarded_for e of None \<Rightarrow> ''anonymous'' | Some ip \<Rightarrow> ip)"

text \<open>The limiter is reachable and has budget left for this request's client.\<close>

definition admits :: "ratelimit \<Rightarrow> env \<Rightarrow> world \<Rightarrow> bool" where
  "admits rl e w = (limiter_ok e \<and> used rl e (client_ip e) w < tokens rl)"

definition too_many :: "decision \<Rightarrow> outcome" where
  "too_many d = TooManyRequests (limit d) (reset d) (remaining d)"

section \<open>Route handlers\<close>

subsection \<open>chat/route.ts\<close>

definition chats_key :: "string \<Rightarrow> string" where
  "chats_key userId = ''user:chats:'' @ userId"

definition chat_POST :: "env \<Rightarrow> json option \<Rightarrow> world \<Rightarrow> outcome \<times> world" where
  "chat_POST e body =
     try_catch
       (bind (ratelimit_limit postReqRateLimit e (client_ip e)) (\<lambda>d.
          if \<not> success d then ret (too_many d)
          else case session_user e of
            None \<Rightarrow> ret Unauthorized
          | Some userId \<Rightarrow>
              bind (req_json body) (\<lambda>b.
              bind (lift (ChatBodySchema_parse b)) (\<lambda>message.
                case message of
                  None \<Rightarrow> ret (BadRequest ''Missing message'')
                | Some text \<Rightarrow>
                    if text = [] then ret (BadRequest ''Missing message'')
                    else
                      bind (db_chat_create e ''New Chat'' userId) (\<lambda>c.
                      bind (redis_del e (chats_key userId)) (\<lambda>_.
                      bind (db_message_create e text USER (chat_id c) (Some userId)) (\<lambda>firstMessage.
                      ret (ChatCreated (chat_id c)))))))))
       (\<lambda>err. ServerFault ''CHAT_POST'' err)"

text \<open>
  The cached value is used as it is unless it is a string, which is parsed:
  \<^verbatim>\<open>typeof cachedChats === "string" ? JSON.parse(cachedChats) : cachedChats\<close>.
  The test \<^verbatim>\<open>if (cachedChats)\<close> before it is JavaScript's truthiness.
\<close>

definition from_cache :: "env \<Rightarrow> json option \<Rightarrow> json io" where
  "from_cache e cached =
     (case cached of
        None \<Rightarrow> ret JNull
      | Some (JStr s) \<Rightarrow> (case JSON_parse e s of None \<Rightarrow> throw SyntaxError | Some v \<Rightarrow> ret v)
      | Some v \<Rightarrow> ret v)"

definition hit :: "json option \<Rightarrow> bool" where
  "hit cached = (case cached of None \<Rightarrow> False | Some v \<Rightarrow> truthy v)"

definition chat_GET :: "env \<Rightarrow> world \<Rightarrow> outcome \<times> world" where
  "chat_GET e =
     try_catch
       (bind (ratelimit_limit getReqRateLimit e (client_ip e)) (\<lambda>d.
          if \<not> success d then ret (too_many d)
          else case session_user e of
            None \<Rightarrow> ret Unauthorized
          | Some userId \<Rightarrow>
              bind (redis_get e (chats_key userId)) (\<lambda>cachedChats.
                if hit cachedChats
                then bind (from_cache e cachedChats) (\<lambda>chats. ret (ChatsListed chats True))
                else
                  bind (db_chat_findMany e userId) (\<lambda>chats.
                  bind (redis_set e (chats_key userId) (JArr (map chat_to_json chats)) 300) (\<lambda>_.
                  ret (ChatsListed (JArr (map chat_to_json chats)) False))))))
       (\<lambda>err. ServerFault ''CHAT_GET'' err)"

subsection \<open>chat/messages/route.ts\<close>

definition messages_key :: "string \<Rightarrow> string \<Rightarrow> string" where
  "messages_key userId chatId = ''user:messages:'' @ userId @ '':chat:'' @ chatId"

definition messages_POST :: "env \<Rightarrow> json option \<Rightarrow> world \<Rightarrow> outcome \<times> world" where
  "messages_POST e body =
     try_catch
       (bind (ratelimit_limit postReqRateLimit e (client_ip e)) (\<lambda>d.
          if \<not> success d then ret (too_many d)
          else case session_user e of
            None \<Rightarrow> ret Unauthorized
          | Some userId \<Rightarrow>
              bind (req_json body) (\<lambda>b.
              bind (lift (bodySchema_parse b)) (\<lambda>(chatId, content, r).
              bind (db_message_create e content r chatId (Some userId)) (\<lambda>m.
              bind (redis_del e (messages_key userId chatId)) (\<lambda>_.
              ret (MessageCreated m)))))))
       (\<lambda>err. ServerFault ''MESSAGES_POST'' err)"

text \<open>
  \<^verbatim>\<open>searchParams.get("chatId")\<close> is absent or a string; \<^verbatim>\<open>!chatId\<close> also holds
  for the empty string.
\<close>

definition messages_GET :: "env \<Rightarrow> string option \<Rightarrow> world \<Rightarrow> outcome \<times> world" where
  "messages_GET e param =
     try_catch
       (bind (ratelimit_limit getReqRateLimit e (client_ip e)) (\<lambda>d.
          if \<not> success d then ret (too_many d)
          else case session_user e of
            None \<Rightarrow> ret Unauthorized
          | Some userId \<Rightarrow>
              (case param of
                 None \<Rightarrow> ret (BadRequest ''Missing chatId'')
               | Some chatId \<Rightarrow>
                   if chatId = [] then ret (BadRequest ''Missing chatId'')
                   else
                     bind (redis_get e (messages_key userId chatId)) (\<lambda>cachedMessages.
                       if hit cachedMessages
                       then bind (from_cache e cachedMessages)
                              (\<lambda>messages. ret (MessagesListed messages True))
                       else
                         bind (db_message_findMany e chatId) (\<lambda>messages.
                         bind (redis_set e (messages_key userId chatId)
                                 (JArr (map message_to_json messages)) 300) (\<lambda>_.
                         ret (MessagesListed (JArr (map message_to_json messages)) False)))))))
       (\<lambda>err. ServerFault ''MESSAGES_GET'' err)"

subsection \<open>chat/aiResponse/route.ts\<close>

text \<open>
  The \<^verbatim>\<open>onFinish\<close> callback that \<^verbatim>\<open>streamText\<close> is given closes over the chat, the
  session's user and receives the full text. It runs when the stream has ended, apart from
  the response, so the handler returns it as a task still to be run.
\<close>

record task =
  task_chatId :: string
  task_userId :: string
  task_text :: string

definition onFinish :: "env \<Rightarrow> task \<Rightarrow> world \<Rightarrow> world" where
  "onFinish e t w =
     (if task_text t \<noteq> []
      then snd (try_catch
                  (bind (db_message_create e (task_text t) ASSISTANT (task_chatId t)
                           (Some (task_userId t))) (\<lambda>m. ret ()))
                  (\<lambda>dbError. ()) w)
      else w)"

text \<open>
  \<^verbatim>\<open>streamText\<close> hands the backend's fragments to the response
  (\<^verbatim>\<open>toDataStreamResponse\<close>) and calls \<^verbatim>\<open>onFinish\<close> with their concatenation once the
  backend has completed.
\<close>

definition aiResponse_POST ::
  "env \<Rightarrow> json option \<Rightarrow> world \<Rightarrow> (outcome \<times> task option) \<times> world" where
  "aiResponse_POST e body =
     try_catch
       (bind (ratelimit_limit postReqRateLimit e (client_ip e)) (\<lambda>d.
          if \<not> success d then ret (too_many d, None)
          else case session_user e of
            None \<Rightarrow> ret (Unauthorized, None)
          | Some userId \<Rightarrow>
              bind (req_json body) (\<lambda>b.
              bind (lift (aiBodySchema_parse b)) (\<lambda>(chatId, content).
              ret (DataStream (fragments e),
                   Some \<lparr>task_chatId = chatId, task_userId = userId,
                         task_text = concat (fragments e)\<rparr>)))))
       (\<lambda>err. (ServerFault ''AI_RESPONSE_POST'' err, None))"

text \<open>The request together with its detached task, run at a later instant.\<close>

definition completion :: "env \<Rightarrow> env \<Rightarrow> json option \<Rightarrow> world \<Rightarrow> outcome \<times> world" where
  "completion e e' body w =
     (case aiResponse_POST e body w of
        ((out, None), w') \<Rightarrow> (out, w')
      | ((out, Some t), w') \<Rightarrow> (out, onFinish e' t w'))"

section \<open>Requests in sequence\<close>

datatype request =
    CreateChat "json option"
  | CreateMessage "json option"
  | StartCompletion "json option"
  | ListChats
  | ListMessages "string option"

fun is_write :: "request \<Rightarrow> bool" where
  "is_write (CreateChat _) = True"
| "is_write (CreateMessage _) = True"
| "is_write (StartCompletion _) = True"
| "is_write ListChats = False"
| "is_write (ListMessages _) = False"

fun serve :: "request \<Rightarrow> env \<Rightarrow> world \<Rightarrow> outcome \<times> world" where
  "serve (CreateChat body) e w = chat_POST e body w"
| "serve (CreateMessage body) e w = messages_POST e body w"
| "serve (StartCompletion body) e w = completion e e body w"
| "serve ListChats e w = chat_GET e w"
| "serve (ListMessages param) e w = messages_GET e param w"

fun run :: "(request \<times> env) list \<Rightarrow> world \<Rightarrow> outcome list \<times> world" where
  "run [] w = ([], w)"
| "run ((r, e) # rs) w =
     (case serve r e w of (out, w') \<Rightarrow> (case run rs w' of (outs, w'') \<Rightarrow> (out # outs, w'')))"

fun is_429 :: "outcome \<Rightarrow> bool" where
  "is_429 (TooManyRequests _ _ _) = True"
| "is_429 _ = False"

section \<open>Example states\<close>

definition no_data :: world where
  "no_data = \<lparr>db_chats = [], db_messages = [], next_cuid = 0, redis_kv = Map.empty,
               rate_windows = (\<lambda>_. [])\<rparr>"

definition alice :: env where
  "alice = \<lparr>forwarded_for = Some ''10.0.0.1'', now = 1000, session_user = Some ''alice'',
             limiter_ok = True, redis_get_ok = True, redis_set_ok = True, redis_del_ok = True,
             db_ok = True, JSON_parse = (\<lambda>_. None), fragments = [''Hel'', ''lo'']\<rparr>"

definition bob :: env where
  "bob = alice\<lparr>forwarded_for := Some ''10.0.0.2'', session_user := Some ''bob''\<rparr>"

definition hi_body :: "json option" where
  "hi_body = Some (JObj [(''message'', JStr ''hi'')])"

definition message_body :: "string \<Rightarrow> string \<Rightarrow> string \<Rightarrow> json option" where
  "message_body chatId content r =
     Some (JObj [(''chatId'', JStr chatId), (''content'', JStr content), (''role'', JStr r)])"

definition prompt_body :: "string \<Rightarrow> string \<Rightarrow> json option" where
  "prompt_body chatId content = Some (JObj [(''chatId'', JStr chatId), (''content'', JStr content)])"

text \<open>The store after alice has created her first chat: chat \<open>c0\<close> with message \<open>c1\<close>.\<close>

definition one_chat :: world where
  "one_chat = snd (chat_POST alice hi_body no_data)"

text \<open>Alice then lists the messages of her chat, which fills her cache entry.\<close>

definition listed :: world where
  "listed = snd (messages_GET alice (Some ''c0'') one_chat)"

definition hi_payload :: json where
  "hi_payload = JArr [JObj [(''id'', JStr ''c1''), (''content'', JStr ''hi''),
                            (''role'', JStr ''USER''), (''createdAt'', JNum 1000),
                            (''chatId'', JStr ''c0''), (''userId'', JStr ''alice'')]]"

definition later :: env where
  "later = alice\<lparr>now := 5000\<rparr>"

text \<open>
  A chat whose three messages lie in the table in another order than they were created in,
  as happens when requests of several callers interleave.
\<close>

definition msg_at :: "string \<Rightarrow> nat \<Rightarrow> message" where
  "msg_at i t = \<lparr>msg_id = i, msg_content = ''m'', msg_role = USER, msg_createdAt = t,
                 msg_chatId = ''c0'', msg_userId = Some ''alice''\<rparr>"

definition scrambled :: world where
  "scrambled = one_chat\<lparr>db_messages := [msg_at ''b'' 2000, msg_at ''c'' 3000, msg_at ''a'' 1000]\<rparr>"

text \<open>Later, with her cache entry filled, alice adds a message to her chat.\<close>

definition more_msg :: message where
  "more_msg = \<lparr>msg_id = ''c2'', msg_content = ''more'', msg_role = USER, msg_createdAt = 5000,
                msg_chatId = ''c0'', msg_userId = Some ''alice''\<rparr>"

definition posted :: world where
  "posted = snd (messages_POST later (message_body ''c0'' ''more'' ''USER'') listed)"

text \<open>
  Or instead, with her cache entry filled, alice asks for a completion in her chat; the
  backend answers \<open>Hello\<close> in two fragments.
\<close>

definition answered :: world where
  "answered = snd (completion later later (prompt_body ''c0'' ''q'') listed)"

text \<open>Ten write-class requests of alice's address, one per second, of all three kinds.\<close>

definition alice_at :: "nat \<Rightarrow> env" where
  "alice_at t = alice\<lparr>now := t\<rparr>"

definition burst :: "(request \<times> env) list" where
  "burst =
     [(CreateChat hi_body, alice_at 1000),
      (CreateMessage (message_body ''c0'' ''one'' ''USER''), alice_at 2000),
      (StartCompletion (prompt_body ''c0'' ''q''), alice_at 3000),
      (CreateMessage (message_body ''c0'' ''two'' ''USER''), alice_at 4000),
      (StartCompletion (prompt_body ''c0'' ''q''), alice_at 5000),
      (CreateChat hi_body, alice_at 6000),
      (CreateMessage (message_body ''c0'' ''three'' ''SYSTEM''), alice_at 7000),
      (StartCompletion (prompt_body ''c0'' ''q''), alice_at 8000),
      (CreateMessage (message_body ''c0'' ''four'' ''USER''), alice_at 9000),
      (CreateChat hi_body, alice_at 10000)]"

text \<open>Or alice lists her chats first, which fills her chats entry.\<close>

definition chats_listed :: world where
  "chats_listed = snd (chat_GET alice one_chat)"

definition chats_payload :: json where
  "chats_payload = JArr [JObj [(''id'', JStr ''c0''), (''createdAt'', JNum 1000),
                               (''updatedAt'', JNum 1000), (''userId'', JStr ''alice''),
                               (''title'', JStr ''New Chat'')]]"

section \<open>Basic facts\<close>

lemmas io_defs = ret_def throw_def bind_def lift_def try_catch_def

lemma cuid_small:
  "cuid 0 = ''c0''" "cuid (Suc 0) = ''c1''" "cuid (Suc (Suc 0)) = ''c2''"
  by (simp_all add: cuid_def digit_def dec.simps [of 0] dec.simps [of "Suc 0"]
        dec.simps [of "Suc (Suc 0)"])

lemma limit_down: "\<not> limiter_ok e \<Longrightarrow> ratelimit_limit rl e key w = (Inl LimiterError, w)"
  by (simp add: ratelimit_limit_def)

lemma limit_admitted:
  "admits rl e w \<Longrightarrow>
   ratelimit_limit rl e (client_ip e) w =
     (Inr \<lparr>success = True, limit = tokens rl, reset = now e + window rl,
            remaining = tokens rl - used rl e (client_ip e) w - 1\<rparr>,
      record_hit rl e (client_ip e) w)"
  by (simp add: ratelimit_limit_def admits_def)

lemma limit_denied:
  "limiter_ok e \<Longrightarrow> \<not> used rl e key w < tokens rl \<Longrightarrow>
   ratelimit_limit rl e key w =
     (Inr \<lparr>success = False, limit = tokens rl, reset = now e + window rl, remaining = 0\<rparr>, w)"
  by (simp add: ratelimit_limit_def)

lemma record_hit_fields [simp]:
  "db_chats (record_hit rl e key w) = db_chats w"
  "db_messages (record_hit rl e key w) = db_messages w"
  "next_cuid (record_hit rl e key w) = next_cuid w"
  "redis_kv (record_hit rl e key w) = redis_kv w"
  by (simp_all add: record_hit_def)

lemma live_record_hit [simp]: "live t (record_hit rl e key w) k = live t w k"
  by (simp add: live_def)

lemma chats_of_record_hit [simp]: "chats_of u (record_hit rl e key w) = chats_of u w"
  by (simp add: chats_of_def)

lemma messages_of_record_hit [simp]: "messages_of c (record_hit rl e key w) = messages_of c w"
  by (simp add: messages_of_def)

section \<open>Rate limiter failure\<close>

text \<open>
  Claim C7, as the code has it. When the limiter's backing store is unreachable, each of
  the five operations stops at the admission check: nothing is read or written, no
  completion task is started, and the caller gets the operation's 500 response carrying
  the limiter's error. The response is not the 429 one.
\<close>

theorem limiter_failure_is_server_fault:
  assumes "\<not> limiter_ok e"
  shows "chat_POST e body w = (ServerFault ''CHAT_POST'' LimiterError, w)
       \<and> chat_GET e w = (ServerFault ''CHAT_GET'' LimiterError, w)
       \<and> messages_POST e body w = (ServerFault ''MESSAGES_POST'' LimiterError, w)
       \<and> messages_GET e param w = (ServerFault ''MESSAGES_GET'' LimiterError, w)
       \<and> aiResponse_POST e body w = ((ServerFault ''AI_RESPONSE_POST'' LimiterError, None), w)"
  using assms
  by (simp add: chat_POST_def chat_GET_def messages_POST_def messages_GET_def aiResponse_POST_def
        try_catch_def bind_def limit_down)

theorem limiter_failure_is_server_fault_witness:
  "\<not> limiter_ok (alice\<lparr>limiter_ok := False\<rparr>)
   \<and> messages_GET (alice\<lparr>limiter_ok := False\<rparr>) (Some ''c0'') one_chat
       = (ServerFault ''MESSAGES_GET'' LimiterError, one_chat)"
  using limiter_failure_is_server_fault [of "alice\<lparr>limiter_ok := False\<rparr>" hi_body one_chat "Some ''c0''"]
  by (simp add: alice_def)

text \<open>
  With the limiter unreachable, creating a chat is answered with the 500 response, which is
  not a rate-limit denial.
\<close>

theorem limiter_failure_counterexample:
  "fst (chat_POST (alice\<lparr>limiter_ok := False\<rparr>) hi_body no_data) = ServerFault ''CHAT_POST'' LimiterError
   \<and> \<not> is_429 (fst (chat_POST (alice\<lparr>limiter_ok := False\<rparr>) hi_body no_data))"
  by (simp add: alice_def chat_POST_def try_catch_def bind_def ratelimit_limit_def)

section \<open>Validation of the message role\<close>

lemma one_chat_eq:
  "one_chat =
     \<lparr>db_chats = [\<lparr>chat_id = ''c0'', chat_createdAt = 1000, chat_updatedAt = 1000,
                   chat_userId = ''alice'', chat_title = Some ''New Chat''\<rparr>],
      db_messages = [\<lparr>msg_id = ''c1'', msg_content = ''hi'', msg_role = USER,
                      msg_createdAt = 1000, msg_chatId = ''c0'', msg_userId = Some ''alice''\<rparr>],
      next_cuid = Suc (Suc 0), redis_kv = Map.empty,
      rate_windows = (\<lambda>_. [])((''10.0.0.1'', WriteClass) := [1000])\<rparr>"
  by (simp add: one_chat_def alice_def no_data_def postReqRateLimit_def used_def
        chat_POST_def io_defs ratelimit_limit_def record_hit_def client_ip_def
        req_json_def hi_body_def ChatBodySchema_parse_def db_chat_create_def redis_del_def
        db_message_create_def new_chat_def new_message_def cuid_small chats_key_def)

lemma alice_admitted_after_first_chat:
  "admits postReqRateLimit alice one_chat \<and> admits getReqRateLimit alice one_chat"
  by (simp add: one_chat_eq admits_def used_def postReqRateLimit_def getReqRateLimit_def
        alice_def client_ip_def in_window_def)

lemma bodySchema_role_rejected:
  assumes "z_enum_role (map_of kvs ''role'') = None"
  shows "\<exists>issues. bodySchema_parse (JObj kvs) = Inl (ZodError issues) \<and> [''role''] \<in> set issues"
  using assms by (auto simp: bodySchema_parse_def issue_def Let_def split: option.splits)

lemma ratelimit_keeps_store:
  "ratelimit_limit rl e key w = (r, w') \<Longrightarrow>
   db_chats w' = db_chats w \<and> db_messages w' = db_messages w \<and> redis_kv w' = redis_kv w
   \<and> next_cuid w' = next_cuid w"
  by (auto simp: ratelimit_limit_def split: if_splits)

text \<open>
  Claim C5, as the code has it. A message creation request whose \<open>role\<close> is not one of
  \<open>USER\<close>, \<open>ASSISTANT\<close>, \<open>SYSTEM\<close> (or is missing, or not a string) never changes the
  store; once admitted and authenticated it is answered with the 500 response of the
  operation, which carries the schema error naming \<open>role\<close>.
\<close>

theorem invalid_role_is_server_fault:
  assumes "z_enum_role (map_of kvs ''role'') = None"
  shows "db_messages (snd (messages_POST e (Some (JObj kvs)) w)) = db_messages w
       \<and> db_chats (snd (messages_POST e (Some (JObj kvs)) w)) = db_chats w
       \<and> (admits postReqRateLimit e w \<and> session_user e \<noteq> None \<longrightarrow>
            (\<exists>issues. fst (messages_POST e (Some (JObj kvs)) w)
                         = ServerFault ''MESSAGES_POST'' (ZodError issues)
                     \<and> [''role''] \<in> set issues))"
proof -
  obtain issues where p: "bodySchema_parse (JObj kvs) = Inl (ZodError issues)"
    and r: "[''role''] \<in> set issues"
    using bodySchema_role_rejected [OF assms] by blast
  obtain d w1 where l: "ratelimit_limit postReqRateLimit e (client_ip e) w = (d, w1)"
    by (cases "ratelimit_limit postReqRateLimit e (client_ip e) w")
  note keep = ratelimit_keeps_store [OF l]
  have store: "db_messages (snd (messages_POST e (Some (JObj kvs)) w)) = db_messages w
       \<and> db_chats (snd (messages_POST e (Some (JObj kvs)) w)) = db_chats w"
    using keep p
    by (cases d) (auto simp: messages_POST_def io_defs req_json_def l split: option.splits)
  have out: "\<exists>issues. fst (messages_POST e (Some (JObj kvs)) w)
                         = ServerFault ''MESSAGES_POST'' (ZodError issues)
                     \<and> [''role''] \<in> set issues"
    if "admits postReqRateLimit e w" "session_user e \<noteq> None"
    using that p r
    by (auto simp: messages_POST_def io_defs req_json_def limit_admitted)
  from store out show ?thesis by blast
qed

theorem invalid_role_is_server_fault_witness:
  "z_enum_role (map_of [(''chatId'', JStr ''c0''), (''content'', JStr ''x''),
                        (''role'', JStr ''MODERATOR'')] ''role'') = None
   \<and> admits postReqRateLimit alice one_chat \<and> session_user alice \<noteq> None
   \<and> db_messages (snd (messages_POST alice (message_body ''c0'' ''x'' ''MODERATOR'') one_chat))
       = db_messages one_chat
   \<and> (\<exists>issues. fst (messages_POST alice (message_body ''c0'' ''x'' ''MODERATOR'') one_chat)
                   = ServerFault ''MESSAGES_POST'' (ZodError issues)
               \<and> [''role''] \<in> set issues)"
proof -
  have h: "z_enum_role (map_of [(''chatId'', JStr ''c0''), (''content'', JStr ''x''),
                                (''role'', JStr ''MODERATOR'')] ''role'') = None"
    by simp
  have s: "session_user alice \<noteq> None" by (simp add: alice_def)
  show ?thesis
    using invalid_role_is_server_fault [OF h, of alice one_chat] alice_admitted_after_first_chat s
    by (simp add: message_body_def)
qed

text \<open>
  The request with role \<open>MODERATOR\<close> for alice's chat is answered with the 500 response,
  not with a validation response of its own.
\<close>

theorem invalid_role_counterexample:
  "fst (messages_POST alice (message_body ''c0'' ''x'' ''MODERATOR'') one_chat)
     = ServerFault ''MESSAGES_POST'' (ZodError [[''role'']])"
  by (simp add: one_chat_eq used_def postReqRateLimit_def alice_def
        messages_POST_def io_defs ratelimit_limit_def record_hit_def client_ip_def in_window_def
        req_json_def message_body_def bodySchema_parse_def issue_def)

section \<open>Cache failures on the read path\<close>

text \<open>
  Claim C3, as the code has it. For both list operations, once the request is admitted and
  authenticated, a failing cache read ends the operation with its 500 response before the
  store is asked, and a failing cache write after a miss ends it with the 500 response
  although the store has returned the rows. A cache failure is not treated as a miss.
\<close>

theorem cache_failure_fails_the_read:
  assumes "admits getReqRateLimit e w" and "session_user e = Some u" and "c \<noteq> []"
  shows "(\<not> redis_get_ok e \<longrightarrow>
            fst (chat_GET e w) = ServerFault ''CHAT_GET'' RedisError
          \<and> fst (messages_GET e (Some c) w) = ServerFault ''MESSAGES_GET'' RedisError)
       \<and> (redis_get_ok e \<and> db_ok e \<and> \<not> redis_set_ok e \<longrightarrow>
            (\<not> hit (live (now e) w (chats_key u)) \<longrightarrow>
               fst (chat_GET e w) = ServerFault ''CHAT_GET'' RedisError)
          \<and> (\<not> hit (live (now e) w (messages_key u c)) \<longrightarrow>
               fst (messages_GET e (Some c) w) = ServerFault ''MESSAGES_GET'' RedisError))"
  using assms
  by (simp add: chat_GET_def messages_GET_def io_defs limit_admitted redis_get_def
        redis_set_def db_chat_findMany_def db_message_findMany_def)

theorem cache_failure_fails_the_read_witness:
  "admits getReqRateLimit (alice\<lparr>redis_set_ok := False\<rparr>) one_chat
   \<and> session_user (alice\<lparr>redis_set_ok := False\<rparr>) = Some ''alice'' \<and> ''c0'' \<noteq> []
   \<and> redis_get_ok (alice\<lparr>redis_set_ok := False\<rparr>) \<and> db_ok (alice\<lparr>redis_set_ok := False\<rparr>)
   \<and> \<not> redis_set_ok (alice\<lparr>redis_set_ok := False\<rparr>)
   \<and> \<not> hit (live (now (alice\<lparr>redis_set_ok := False\<rparr>)) one_chat (messages_key ''alice'' ''c0''))
   \<and> fst (messages_GET (alice\<lparr>redis_set_ok := False\<rparr>) (Some ''c0'') one_chat)
        = ServerFault ''MESSAGES_GET'' RedisError"
proof -
  have a: "admits getReqRateLimit (alice\<lparr>redis_set_ok := False\<rparr>) one_chat"
    using alice_admitted_after_first_chat by (simp add: admits_def used_def client_ip_def)
  have s: "session_user (alice\<lparr>redis_set_ok := False\<rparr>) = Some ''alice''"
    by (simp add: alice_def)
  have c: "''c0'' \<noteq> []" by simp
  have m: "\<not> hit (live (now (alice\<lparr>redis_set_ok := False\<rparr>)) one_chat (messages_key ''alice'' ''c0''))"
    by (simp add: hit_def live_def one_chat_eq)
  show ?thesis
    using cache_failure_fails_the_read [OF a s c] a m
    by (simp add: alice_def)
qed

text \<open>
  Alice lists her chats while the cache cannot be read: the store holds her chat, yet the
  answer is the 500 response instead of the list.
\<close>

theorem cache_failure_counterexample:
  "chats_of ''alice'' one_chat =
     [\<lparr>chat_id = ''c0'', chat_createdAt = 1000, chat_updatedAt = 1000,
       chat_userId = ''alice'', chat_title = Some ''New Chat''\<rparr>]
   \<and> fst (chat_GET (alice\<lparr>redis_get_ok := False\<rparr>) one_chat) = ServerFault ''CHAT_GET'' RedisError"
  by (simp add: one_chat_eq chats_of_def alice_def chat_GET_def io_defs ratelimit_limit_def
        used_def getReqRateLimit_def client_ip_def redis_get_def record_hit_def)

section \<open>Reading through the cache\<close>

lemma from_cache_array [simp]: "from_cache e (Some (JArr xs)) w = (Inr (JArr xs), w)"
  by (simp add: from_cache_def ret_def)

lemma chat_GET_miss:
  assumes "chat_GET e w = (ChatsListed p False, w1)" and "session_user e = Some u"
  shows "p = JArr (map chat_to_json (chats_of u w))
       \<and> w1 = (record_hit getReqRateLimit e (client_ip e) w)
               \<lparr>redis_kv := (redis_kv w)(chats_key u \<mapsto> (p, now e + 300 * 1000))\<rparr>
       \<and> \<not> hit (live (now e) w (chats_key u))"
  using assms
  by (auto simp: chat_GET_def io_defs ratelimit_limit_def too_many_def redis_get_def
        redis_set_def db_chat_findMany_def from_cache_def
        split: if_splits option.splits json.splits)

lemma messages_GET_miss:
  assumes "messages_GET e (Some c) w = (MessagesListed p False, w1)" and "session_user e = Some u"
  shows "p = JArr (map message_to_json (messages_of c w))
       \<and> w1 = (record_hit getReqRateLimit e (client_ip e) w)
               \<lparr>redis_kv := (redis_kv w)(messages_key u c \<mapsto> (p, now e + 300 * 1000))\<rparr>
       \<and> \<not> hit (live (now e) w (messages_key u c)) \<and> c \<noteq> []"
  using assms
  by (auto simp: messages_GET_def io_defs ratelimit_limit_def too_many_def redis_get_def
        redis_set_def db_message_findMany_def from_cache_def
        split: if_splits option.splits json.splits)

lemma chat_GET_hit:
  assumes "admits getReqRateLimit e w" and "session_user e = Some u" and "redis_get_ok e"
    and "live (now e) w (chats_key u) = Some (JArr xs)"
  shows "fst (chat_GET e w) = ChatsListed (JArr xs) True"
  using assms
  by (simp add: chat_GET_def io_defs limit_admitted redis_get_def hit_def)

lemma messages_GET_hit:
  assumes "admits getReqRateLimit e w" and "session_user e = Some u" and "redis_get_ok e"
    and "c \<noteq> []" and "live (now e) w (messages_key u c) = Some (JArr xs)"
  shows "fst (messages_GET e (Some c) w) = MessagesListed (JArr xs) True"
  using assms
  by (simp add: messages_GET_def io_defs limit_admitted redis_get_def hit_def)

lemma chat_GET_fresh:
  assumes "admits getReqRateLimit e w" and "session_user e = Some u" and "redis_get_ok e"
    and "db_ok e" and "redis_set_ok e" and "\<not> hit (live (now e) w (chats_key u))"
  shows "fst (chat_GET e w) = ChatsListed (JArr (map chat_to_json (chats_of u w))) False"
  using assms
  by (simp add: chat_GET_def io_defs limit_admitted redis_get_def redis_set_def
        db_chat_findMany_def)

lemma messages_GET_fresh:
  assumes "admits getReqRateLimit e w" and "session_user e = Some u" and "redis_get_ok e"
    and "db_ok e" and "redis_set_ok e" and "c \<noteq> []"
    and "\<not> hit (live (now e) w (messages_key u c))"
  shows "fst (messages_GET e (Some c) w)
           = MessagesListed (JArr (map message_to_json (messages_of c w))) False"
  using assms
  by (simp add: messages_GET_def io_defs limit_admitted redis_get_def redis_set_def
        db_message_findMany_def)

text \<open>
  Claim C9. Let a list request be admitted and authenticated, with store and cache
  answering, and let it miss the cache. Then it answers from the store with
  \<open>cached = false\<close> and leaves that payload in the caller's cache entry with an expiry
  300 seconds later; and a second list by the same caller, admitted before that expiry with
  nothing in between, answers with the identical payload and \<open>cached = true\<close>. This holds
  for the list of chats and for the list of a chat's messages.
\<close>

theorem second_list_is_cached_and_identical:
  assumes "session_user e = Some u" and "session_user e' = Some u"
    and "admits getReqRateLimit e w" and "redis_get_ok e" and "db_ok e" and "redis_set_ok e"
    and "redis_get_ok e'" and "now e' < now e + 300 * 1000"
  shows "(\<not> hit (live (now e) w (chats_key u))
          \<and> admits getReqRateLimit e' (snd (chat_GET e w)) \<longrightarrow>
            fst (chat_GET e w) = ChatsListed (JArr (map chat_to_json (chats_of u w))) False
          \<and> redis_kv (snd (chat_GET e w)) (chats_key u)
              = Some (JArr (map chat_to_json (chats_of u w)), now e + 300 * 1000)
          \<and> fst (chat_GET e' (snd (chat_GET e w)))
              = ChatsListed (JArr (map chat_to_json (chats_of u w))) True)
       \<and> (c \<noteq> [] \<and> \<not> hit (live (now e) w (messages_key u c))
          \<and> admits getReqRateLimit e' (snd (messages_GET e (Some c) w)) \<longrightarrow>
            fst (messages_GET e (Some c) w)
              = MessagesListed (JArr (map message_to_json (messages_of c w))) False
          \<and> redis_kv (snd (messages_GET e (Some c) w)) (messages_key u c)
              = Some (JArr (map message_to_json (messages_of c w)), now e + 300 * 1000)
          \<and> fst (messages_GET e' (Some c) (snd (messages_GET e (Some c) w)))
              = MessagesListed (JArr (map message_to_json (messages_of c w))) True)"
proof (intro conjI impI)
  let ?p = "JArr (map chat_to_json (chats_of u w))"
  let ?w1 = "snd (chat_GET e w)"
  assume h: "\<not> hit (live (now e) w (chats_key u)) \<and> admits getReqRateLimit e' ?w1"
  from h show f: "fst (chat_GET e w) = ChatsListed ?p False"
    using chat_GET_fresh [OF assms(3) assms(1) assms(4) assms(5) assms(6)] by simp
  then have g: "chat_GET e w = (ChatsListed ?p False, ?w1)"
    by (simp add: prod_eq_iff)
  from chat_GET_miss [OF g assms(1)]
  show k: "redis_kv ?w1 (chats_key u) = Some (?p, now e + 300 * 1000)" by simp
  from k assms(8) have "live (now e') ?w1 (chats_key u) = Some ?p"
    by (simp add: live_def)
  with h show "fst (chat_GET e' ?w1) = ChatsListed ?p True"
    using chat_GET_hit [of e' ?w1 u, OF _ assms(2) assms(7)] by simp
next
  let ?p = "JArr (map message_to_json (messages_of c w))"
  let ?w1 = "snd (messages_GET e (Some c) w)"
  assume h: "c \<noteq> [] \<and> \<not> hit (live (now e) w (messages_key u c))
     \<and> admits getReqRateLimit e' ?w1"
  from h show f: "fst (messages_GET e (Some c) w) = MessagesListed ?p False"
    using messages_GET_fresh [OF assms(3) assms(1) assms(4) assms(5) assms(6)] by simp
  then have g: "messages_GET e (Some c) w = (MessagesListed ?p False, ?w1)"
    by (simp add: prod_eq_iff)
  from messages_GET_miss [OF g assms(1)]
  show k: "redis_kv ?w1 (messages_key u c) = Some (?p, now e + 300 * 1000)" by simp
  from k assms(8) have "live (now e') ?w1 (messages_key u c) = Some ?p"
    by (simp add: live_def)
  with h show "fst (messages_GET e' (Some c) ?w1) = MessagesListed ?p True"
    using messages_GET_hit [of e' ?w1 u c, OF _ assms(2) assms(7)] by simp
qed

lemma listed_eq:
  "listed =
     \<lparr>db_chats = [\<lparr>chat_id = ''c0'', chat_createdAt = 1000, chat_updatedAt = 1000,
                   chat_userId = ''alice'', chat_title = Some ''New Chat''\<rparr>],
      db_messages = [\<lparr>msg_id = ''c1'', msg_content = ''hi'', msg_role = USER,
                      msg_createdAt = 1000, msg_chatId = ''c0'', msg_userId = Some ''alice''\<rparr>],
      next_cuid = Suc (Suc 0),
      redis_kv = [''user:messages:alice:chat:c0'' \<mapsto> (hi_payload, 301000)],
      rate_windows = (\<lambda>_. [])((''10.0.0.1'', WriteClass) := [1000],
                                (''10.0.0.1'', ReadClass) := [1000])\<rparr>"
  by (simp add: listed_def hi_payload_def one_chat_eq alice_def messages_GET_def io_defs
        ratelimit_limit_def used_def getReqRateLimit_def client_ip_def redis_get_def live_def
        hit_def db_message_findMany_def messages_of_def redis_set_def message_to_json_def
        json_opt_string_def record_hit_def messages_key_def)

lemma later_admitted_after_listing:
  "admits getReqRateLimit later listed \<and> admits postReqRateLimit later listed"
  by (simp add: listed_eq admits_def used_def postReqRateLimit_def getReqRateLimit_def
        later_def alice_def client_ip_def in_window_def)

lemma chats_listed_fields:
  "redis_kv chats_listed = [''user:chats:alice'' \<mapsto> (chats_payload, 301000)]"
  "rate_windows chats_listed (''10.0.0.1'', ReadClass) = [1000]"
  by (simp_all add: chats_listed_def chats_payload_def one_chat_eq alice_def chat_GET_def
        io_defs ratelimit_limit_def used_def getReqRateLimit_def client_ip_def redis_get_def
        live_def hit_def db_chat_findMany_def chats_of_def redis_set_def chat_to_json_def
        json_opt_string_def record_hit_def chats_key_def)

lemma alice_payloads:
  "JArr (map chat_to_json (chats_of ''alice'' one_chat)) = chats_payload"
  "JArr (map message_to_json (messages_of ''c0'' one_chat)) = hi_payload"
  by (simp_all add: one_chat_eq chats_of_def messages_of_def chat_to_json_def
        message_to_json_def json_opt_string_def chats_payload_def hi_payload_def)

theorem second_list_is_cached_and_identical_witness:
  "session_user alice = Some ''alice'' \<and> session_user later = Some ''alice''
   \<and> admits getReqRateLimit alice one_chat
   \<and> redis_get_ok alice \<and> db_ok alice \<and> redis_set_ok alice \<and> redis_get_ok later
   \<and> now later < now alice + 300 * 1000 \<and> ''c0'' \<noteq> []
   \<and> \<not> hit (live (now alice) one_chat (chats_key ''alice''))
   \<and> admits getReqRateLimit later (snd (chat_GET alice one_chat))
   \<and> \<not> hit (live (now alice) one_chat (messages_key ''alice'' ''c0''))
   \<and> admits getReqRateLimit later (snd (messages_GET alice (Some ''c0'') one_chat))
   \<and> fst (chat_GET alice one_chat) = ChatsListed chats_payload False
   \<and> redis_kv (snd (chat_GET alice one_chat)) (chats_key ''alice'')
        = Some (chats_payload, now alice + 300 * 1000)
   \<and> fst (chat_GET later (snd (chat_GET alice one_chat))) = ChatsListed chats_payload True
   \<and> fst (messages_GET alice (Some ''c0'') one_chat) = MessagesListed hi_payload False
   \<and> redis_kv (snd (messages_GET alice (Some ''c0'') one_chat)) (messages_key ''alice'' ''c0'')
        = Some (hi_payload, now alice + 300 * 1000)
   \<and> fst (messages_GET later (Some ''c0'') (snd (messages_GET alice (Some ''c0'') one_chat)))
        = MessagesListed hi_payload True"
proof -
  have s: "session_user alice = Some ''alice''" and s2: "session_user later = Some ''alice''"
    by (simp_all add: alice_def later_def)
  have a: "admits getReqRateLimit alice one_chat"
    using alice_admitted_after_first_chat by simp
  have ok: "redis_get_ok alice" "db_ok alice" "redis_set_ok alice" "redis_get_ok later"
    by (simp_all add: alice_def later_def)
  have t: "now later < now alice + 300 * 1000" by (simp add: alice_def later_def)
  have c: "''c0'' \<noteq> []" by simp
  have m: "\<not> hit (live (now alice) one_chat (chats_key ''alice''))"
    "\<not> hit (live (now alice) one_chat (messages_key ''alice'' ''c0''))"
    by (simp_all add: one_chat_eq live_def hit_def)
  have w: "snd (chat_GET alice one_chat) = chats_listed"
    "snd (messages_GET alice (Some ''c0'') one_chat) = listed"
    by (simp_all add: chats_listed_def listed_def)
  have a2: "admits getReqRateLimit later chats_listed"
    by (simp add: admits_def used_def getReqRateLimit_def later_def alice_def client_ip_def
          chats_listed_fields in_window_def)
  have a3: "admits getReqRateLimit later listed"
    using later_admitted_after_listing by simp
  show ?thesis
    using second_list_is_cached_and_identical [OF s s2 a ok t, of "''c0''"]
      s s2 a ok t c m a2 a3
    by (simp add: w alice_payloads)
qed

section \<open>Order of the listed rows\<close>

lemma chats_of_order:
  "sorted_wrt (\<lambda>a b. chat_createdAt b \<le> chat_createdAt a) (chats_of u w)
   \<and> mset (chats_of u w) = mset (filter (\<lambda>c. chat_userId c = u) (db_chats w))"
proof -
  let ?xs = "sort_key chat_createdAt (filter (\<lambda>c. chat_userId c = u) (db_chats w))"
  have "sorted (map chat_createdAt ?xs)" by simp
  then have "sorted_wrt (\<lambda>a b. chat_createdAt a \<le> chat_createdAt b) ?xs"
    by (simp add: sorted_map)
  then show ?thesis
    by (simp add: chats_of_def sorted_wrt_rev)
qed

lemma messages_of_order:
  "sorted (map msg_createdAt (messages_of c w))
   \<and> mset (messages_of c w) = mset (filter (\<lambda>m. msg_chatId m = c) (db_messages w))"
  by (simp add: messages_of_def)

lemma singleton_filter:
  assumes "mset xs = {#a, b, c#}" and "P a" and "\<not> P b" and "\<not> P c"
  shows "filter P xs = [a]"
proof -
  have "mset (filter P xs) = filter_mset P (mset xs)" by simp
  also have "\<dots> = {#a#}" using assms by simp
  finally show ?thesis by (metis mset_single_iff_right)
qed

lemma three_in_order:
  fixes f :: "'a \<Rightarrow> nat"
  assumes m: "mset xs = {#m1, m2, m3#}" and lt: "f m1 < f m2" "f m2 < f m3"
  shows "sort_key f xs = [m1, m2, m3]"
proof (rule properties_for_sort_key)
  show "mset [m1, m2, m3] = mset xs" using m by simp
  show "sorted (map f [m1, m2, m3])" using lt by simp
  fix k assume "k \<in> set [m1, m2, m3]"
  then consider "k = m1" | "k = m2" | "k = m3" by auto
  then show "filter (\<lambda>x. f k = f x) [m1, m2, m3] = filter (\<lambda>x. f k = f x) xs"
  proof cases
    case 1
    have "filter (\<lambda>x. f k = f x) xs = [m1]"
      using lt 1 by (intro singleton_filter [OF m]) auto
    then show ?thesis using lt 1 by auto
  next
    case 2
    have "mset xs = {#m2, m1, m3#}" using m by (simp add: add_mset_commute)
    then have "filter (\<lambda>x. f k = f x) xs = [m2]"
      using lt 2 by (intro singleton_filter) auto
    then show ?thesis using lt 2 by auto
  next
    case 3
    have "mset xs = {#m3, m1, m2#}" using m by (simp add: add_mset_commute)
    then have "filter (\<lambda>x. f k = f x) xs = [m3]"
      using lt 3 by (intro singleton_filter) auto
    then show ?thesis using lt 3 by auto
  qed
qed

text \<open>
  Claim C8. For an admitted, authenticated list request that misses the cache while store
  and cache answer: the chats returned are exactly the caller's chats, latest creation
  first; the messages returned are exactly the chat's messages, earliest creation first;
  and when the chat holds three messages created at instants \<open>t1 < t2 < t3\<close>, they are
  returned in that order whatever their order in the table.
\<close>

theorem list_order_on_miss:
  assumes "admits getReqRateLimit e w" and "session_user e = Some u" and "redis_get_ok e"
    and "db_ok e" and "redis_set_ok e"
  shows "(\<not> hit (live (now e) w (chats_key u)) \<longrightarrow>
            fst (chat_GET e w) = ChatsListed (JArr (map chat_to_json (chats_of u w))) False)
       \<and> sorted_wrt (\<lambda>a b. chat_createdAt b \<le> chat_createdAt a) (chats_of u w)
       \<and> mset (chats_of u w) = mset (filter (\<lambda>x. chat_userId x = u) (db_chats w))
       \<and> (c \<noteq> [] \<and> \<not> hit (live (now e) w (messages_key u c)) \<longrightarrow>
            fst (messages_GET e (Some c) w)
              = MessagesListed (JArr (map message_to_json (messages_of c w))) False)
       \<and> sorted (map msg_createdAt (messages_of c w))
       \<and> mset (messages_of c w) = mset (filter (\<lambda>m. msg_chatId m = c) (db_messages w))
       \<and> (mset (filter (\<lambda>m. msg_chatId m = c) (db_messages w)) = {#m1, m2, m3#}
            \<and> msg_createdAt m1 < msg_createdAt m2 \<and> msg_createdAt m2 < msg_createdAt m3 \<longrightarrow>
              messages_of c w = [m1, m2, m3])"
proof -
  have three: "messages_of c w = [m1, m2, m3]"
    if "mset (filter (\<lambda>m. msg_chatId m = c) (db_messages w)) = {#m1, m2, m3#}"
      and "msg_createdAt m1 < msg_createdAt m2" and "msg_createdAt m2 < msg_createdAt m3"
    unfolding messages_of_def using that by (rule three_in_order)
  show ?thesis
    using chat_GET_fresh [OF assms] messages_GET_fresh [OF assms, of c]
      chats_of_order [of u w] messages_of_order [of c w] three
    by blast
qed

theorem list_order_on_miss_witness:
  "admits getReqRateLimit later scrambled \<and> session_user later = Some ''alice''
   \<and> redis_get_ok later \<and> db_ok later \<and> redis_set_ok later \<and> ''c0'' \<noteq> []
   \<and> \<not> hit (live (now later) scrambled (messages_key ''alice'' ''c0''))
   \<and> mset (filter (\<lambda>m. msg_chatId m = ''c0'') (db_messages scrambled))
        = {#msg_at ''a'' 1000, msg_at ''b'' 2000, msg_at ''c'' 3000#}
   \<and> msg_createdAt (msg_at ''a'' 1000) < msg_createdAt (msg_at ''b'' 2000)
   \<and> msg_createdAt (msg_at ''b'' 2000) < msg_createdAt (msg_at ''c'' 3000)
   \<and> db_messages scrambled = [msg_at ''b'' 2000, msg_at ''c'' 3000, msg_at ''a'' 1000]
   \<and> messages_of ''c0'' scrambled = [msg_at ''a'' 1000, msg_at ''b'' 2000, msg_at ''c'' 3000]
   \<and> fst (messages_GET later (Some ''c0'') scrambled)
        = MessagesListed (JArr (map message_to_json
            [msg_at ''a'' 1000, msg_at ''b'' 2000, msg_at ''c'' 3000])) False"
proof -
  have a: "admits getReqRateLimit later scrambled"
    by (simp add: scrambled_def one_chat_eq admits_def used_def getReqRateLimit_def later_def
          alice_def client_ip_def)
  have s: "session_user later = Some ''alice''" and g: "redis_get_ok later"
    and d: "db_ok later" and t: "redis_set_ok later"
    by (simp_all add: later_def alice_def)
  have m: "\<not> hit (live (now later) scrambled (messages_key ''alice'' ''c0''))"
    by (simp add: scrambled_def one_chat_eq live_def hit_def)
  have tbl: "db_messages scrambled = [msg_at ''b'' 2000, msg_at ''c'' 3000, msg_at ''a'' 1000]"
    by (simp add: scrambled_def)
  have f: "mset (filter (\<lambda>m. msg_chatId m = ''c0'') (db_messages scrambled))
        = {#msg_at ''a'' 1000, msg_at ''b'' 2000, msg_at ''c'' 3000#}"
    by (simp add: tbl msg_at_def add_mset_commute)
  have lt: "msg_createdAt (msg_at ''a'' 1000) < msg_createdAt (msg_at ''b'' 2000)"
    "msg_createdAt (msg_at ''b'' 2000) < msg_createdAt (msg_at ''c'' 3000)"
    by (simp_all add: msg_at_def)
  show ?thesis
    using list_order_on_miss [OF a s g d t, of "''c0''" "msg_at ''a'' 1000" "msg_at ''b'' 2000"
        "msg_at ''c'' 3000"] a s g d t m tbl f lt
    by simp
qed

section \<open>Messages and chat ownership\<close>

lemma messages_POST_created:
  assumes "admits postReqRateLimit e w" and "session_user e = Some u"
    and "bodySchema_parse b = Inr (c, content, r)"
    and "db_ok e" and "redis_del_ok e" and "c \<in> set (map chat_id (db_chats w))"
  shows "messages_POST e (Some b) w =
           (MessageCreated (new_message e content r c (Some u) w),
            (record_hit postReqRateLimit e (client_ip e) w)
              \<lparr>db_messages := db_messages w @ [new_message e content r c (Some u) w],
                next_cuid := Suc (next_cuid w),
                redis_kv := (redis_kv w)(messages_key u c := None)\<rparr>)"
  using assms
  by (simp add: messages_POST_def io_defs limit_admitted req_json_def db_message_create_def
        redis_del_def new_message_def)

text \<open>
  Claim C10. Listing and creating messages never look at who owns the chat. Two
  authenticated callers that list the messages of the same chat from the store get the same
  sequence, the one selected by the chat identifier alone; and a caller who does not own an
  existing chat can create a message in it, which is appended to the table with that chat's
  identifier and the caller as author.
\<close>

theorem messages_ignore_chat_ownership:
  assumes "session_user e1 = Some u1" and "session_user e2 = Some u2"
  shows "(admits getReqRateLimit e1 w \<and> admits getReqRateLimit e2 w
          \<and> redis_get_ok e1 \<and> db_ok e1 \<and> redis_set_ok e1
          \<and> redis_get_ok e2 \<and> db_ok e2 \<and> redis_set_ok e2 \<and> c \<noteq> []
          \<and> \<not> hit (live (now e1) w (messages_key u1 c))
          \<and> \<not> hit (live (now e2) w (messages_key u2 c)) \<longrightarrow>
            fst (messages_GET e1 (Some c) w)
              = MessagesListed (JArr (map message_to_json (messages_of c w))) False
          \<and> fst (messages_GET e2 (Some c) w) = fst (messages_GET e1 (Some c) w))
       \<and> (x \<in> set (db_chats w) \<and> chat_id x = c \<and> chat_userId x \<noteq> u1
          \<and> admits postReqRateLimit e1 w \<and> db_ok e1 \<and> redis_del_ok e1
          \<and> bodySchema_parse b = Inr (c, content, r) \<longrightarrow>
            fst (messages_POST e1 (Some b) w)
              = MessageCreated (new_message e1 content r c (Some u1) w)
          \<and> db_messages (snd (messages_POST e1 (Some b) w))
              = db_messages w @ [new_message e1 content r c (Some u1) w]
          \<and> msg_chatId (new_message e1 content r c (Some u1) w) = c
          \<and> msg_userId (new_message e1 content r c (Some u1) w) = Some u1)"
proof (intro conjI impI)
  assume h: "admits getReqRateLimit e1 w \<and> admits getReqRateLimit e2 w
          \<and> redis_get_ok e1 \<and> db_ok e1 \<and> redis_set_ok e1
          \<and> redis_get_ok e2 \<and> db_ok e2 \<and> redis_set_ok e2 \<and> c \<noteq> []
          \<and> \<not> hit (live (now e1) w (messages_key u1 c))
          \<and> \<not> hit (live (now e2) w (messages_key u2 c))"
  from h assms(1) show 1: "fst (messages_GET e1 (Some c) w)
              = MessagesListed (JArr (map message_to_json (messages_of c w))) False"
    using messages_GET_fresh [of e1 w u1 c] by blast
  from h assms(2) have "fst (messages_GET e2 (Some c) w)
              = MessagesListed (JArr (map message_to_json (messages_of c w))) False"
    using messages_GET_fresh [of e2 w u2 c] by blast
  with 1 show "fst (messages_GET e2 (Some c) w) = fst (messages_GET e1 (Some c) w)" by simp
next
  assume h: "x \<in> set (db_chats w) \<and> chat_id x = c \<and> chat_userId x \<noteq> u1
          \<and> admits postReqRateLimit e1 w \<and> db_ok e1 \<and> redis_del_ok e1
          \<and> bodySchema_parse b = Inr (c, content, r)"
  then have "c \<in> set (map chat_id (db_chats w))" by auto
  with h assms(1) have p: "messages_POST e1 (Some b) w =
           (MessageCreated (new_message e1 content r c (Some u1) w),
            (record_hit postReqRateLimit e1 (client_ip e1) w)
              \<lparr>db_messages := db_messages w @ [new_message e1 content r c (Some u1) w],
                next_cuid := Suc (next_cuid w),
                redis_kv := (redis_kv w)(messages_key u1 c := None)\<rparr>)"
    using messages_POST_created [of e1 w u1 b c content r] by blast
  from p show "fst (messages_POST e1 (Some b) w)
              = MessageCreated (new_message e1 content r c (Some u1) w)" by simp
  from p show "db_messages (snd (messages_POST e1 (Some b) w))
              = db_messages w @ [new_message e1 content r c (Some u1) w]" by simp
  show "msg_chatId (new_message e1 content r c (Some u1) w) = c"
    by (simp add: new_message_def)
  show "msg_userId (new_message e1 content r c (Some u1) w) = Some u1"
    by (simp add: new_message_def)
qed

lemma bob_admitted_after_first_chat:
  "admits postReqRateLimit bob one_chat \<and> admits getReqRateLimit bob one_chat"
  by (simp add: one_chat_eq admits_def used_def postReqRateLimit_def getReqRateLimit_def
        bob_def alice_def client_ip_def)

theorem messages_ignore_chat_ownership_witness:
  "session_user bob = Some ''bob'' \<and> session_user alice = Some ''alice''
   \<and> hd (db_chats one_chat) \<in> set (db_chats one_chat) \<and> chat_id (hd (db_chats one_chat)) = ''c0''
   \<and> chat_userId (hd (db_chats one_chat)) \<noteq> ''bob''
   \<and> admits postReqRateLimit bob one_chat \<and> db_ok bob \<and> redis_del_ok bob
   \<and> bodySchema_parse (the (message_body ''c0'' ''yo'' ''USER'')) = Inr (''c0'', ''yo'', USER)
   \<and> admits getReqRateLimit bob one_chat \<and> admits getReqRateLimit alice one_chat
   \<and> \<not> hit (live (now bob) one_chat (messages_key ''bob'' ''c0''))
   \<and> \<not> hit (live (now alice) one_chat (messages_key ''alice'' ''c0''))
   \<and> fst (messages_GET bob (Some ''c0'') one_chat) = MessagesListed hi_payload False
   \<and> fst (messages_GET alice (Some ''c0'') one_chat) = fst (messages_GET bob (Some ''c0'') one_chat)
   \<and> db_messages (snd (messages_POST bob (message_body ''c0'' ''yo'' ''USER'') one_chat))
        = db_messages one_chat @
          [\<lparr>msg_id = ''c2'', msg_content = ''yo'', msg_role = USER, msg_createdAt = 1000,
            msg_chatId = ''c0'', msg_userId = Some ''bob''\<rparr>]"
proof -
  have s: "session_user bob = Some ''bob''" "session_user alice = Some ''alice''"
    by (simp_all add: bob_def alice_def)
  have x: "hd (db_chats one_chat) \<in> set (db_chats one_chat)"
    "chat_id (hd (db_chats one_chat)) = ''c0''" "chat_userId (hd (db_chats one_chat)) \<noteq> ''bob''"
    by (simp_all add: one_chat_eq)
  have ok: "db_ok bob" "redis_del_ok bob" "redis_get_ok bob" "redis_set_ok bob"
    "db_ok alice" "redis_get_ok alice" "redis_set_ok alice"
    by (simp_all add: bob_def alice_def)
  have b: "bodySchema_parse (the (message_body ''c0'' ''yo'' ''USER'')) = Inr (''c0'', ''yo'', USER)"
    by (simp add: message_body_def bodySchema_parse_def)
  have m: "\<not> hit (live (now bob) one_chat (messages_key ''bob'' ''c0''))"
    "\<not> hit (live (now alice) one_chat (messages_key ''alice'' ''c0''))"
    by (simp_all add: one_chat_eq live_def hit_def)
  have l: "JArr (map message_to_json (messages_of ''c0'' one_chat)) = hi_payload"
    by (simp add: one_chat_eq messages_of_def message_to_json_def hi_payload_def
          json_opt_string_def)
  have n: "new_message bob ''yo'' USER ''c0'' (Some ''bob'') one_chat =
             \<lparr>msg_id = ''c2'', msg_content = ''yo'', msg_role = USER, msg_createdAt = 1000,
              msg_chatId = ''c0'', msg_userId = Some ''bob''\<rparr>"
    by (simp add: new_message_def one_chat_eq cuid_small bob_def alice_def)
  have body: "message_body ''c0'' ''yo'' ''USER'' = Some (the (message_body ''c0'' ''yo'' ''USER''))"
    by (simp add: message_body_def)
  show ?thesis
    using messages_ignore_chat_ownership [OF s, of one_chat "''c0''" "hd (db_chats one_chat)"
        "the (message_body ''c0'' ''yo'' ''USER'')" "''yo''" USER]
      s x ok b m l n body bob_admitted_after_first_chat alice_admitted_after_first_chat
    by simp
qed

section \<open>Invalidation on create\<close>

lemma set_chats_of: "set (chats_of u w) = {x \<in> set (db_chats w). chat_userId x = u}"
  by (auto simp: chats_of_def)

lemma set_messages_of: "set (messages_of c w) = {m \<in> set (db_messages w). msg_chatId m = c}"
  by (auto simp: messages_of_def)

lemma chat_POST_success:
  assumes "chat_POST e body w = (ChatCreated cid, w')" and "session_user e = Some u"
  shows "redis_kv w' (chats_key u) = None
       \<and> (\<exists>x \<in> set (db_chats w'). chat_id x = cid \<and> chat_userId x = u)"
  using assms
  by (auto simp: chat_POST_def io_defs ratelimit_limit_def too_many_def req_json_def
        db_chat_create_def redis_del_def db_message_create_def new_chat_def
        split: if_splits option.splits sum.splits)

lemma messages_POST_success:
  assumes "messages_POST e body w = (MessageCreated m, w')" and "session_user e = Some u"
  shows "redis_kv w' (messages_key u (msg_chatId m)) = None \<and> m \<in> set (db_messages w')"
  using assms
  by (auto simp: messages_POST_def io_defs ratelimit_limit_def too_many_def req_json_def
        db_message_create_def redis_del_def new_message_def
        split: if_splits option.splits sum.splits prod.splits)

lemma chat_GET_after_delete:
  assumes "redis_kv w (chats_key u) = None" and "session_user e = Some u"
    and "fst (chat_GET e w) = ChatsListed p b"
  shows "b = False \<and> p = JArr (map chat_to_json (chats_of u w))"
  using assms
  by (auto simp: chat_GET_def io_defs ratelimit_limit_def too_many_def redis_get_def
        redis_set_def db_chat_findMany_def live_def hit_def
        split: if_splits)

lemma messages_GET_after_delete:
  assumes "redis_kv w (messages_key u c) = None" and "session_user e = Some u"
    and "fst (messages_GET e (Some c) w) = MessagesListed p b"
  shows "b = False \<and> p = JArr (map message_to_json (messages_of c w))"
  using assms
  by (auto simp: messages_GET_def io_defs ratelimit_limit_def too_many_def redis_get_def
        redis_set_def db_message_findMany_def live_def hit_def
        split: if_splits)

text \<open>
  Claim C1. When creating a chat has answered with success, the caller's chats entry is
  absent from the cache and the new chat is in the store, so whatever list of chats the same
  caller is then given is read from the store and holds the new chat. When creating a
  message has answered with success, the caller's entry for that chat's messages is absent
  from the cache and the message is in the store, so whatever list of that chat's messages
  the same caller is then given is read from the store and holds the new message.
\<close>

theorem create_invalidates_callers_entry:
  assumes "session_user e = Some u"
  shows "(chat_POST e body w = (ChatCreated cid, w') \<longrightarrow>
            redis_kv w' (chats_key u) = None
          \<and> cid \<in> chat_id ` set (chats_of u w')
          \<and> (\<forall>e' p b. session_user e' = Some u \<and> fst (chat_GET e' w') = ChatsListed p b \<longrightarrow>
                 b = False \<and> p = JArr (map chat_to_json (chats_of u w'))))
       \<and> (messages_POST e body w = (MessageCreated m, w') \<longrightarrow>
            redis_kv w' (messages_key u (msg_chatId m)) = None
          \<and> m \<in> set (messages_of (msg_chatId m) w')
          \<and> (\<forall>e' p b. session_user e' = Some u
                 \<and> fst (messages_GET e' (Some (msg_chatId m)) w') = MessagesListed p b \<longrightarrow>
                 b = False \<and> p = JArr (map message_to_json (messages_of (msg_chatId m) w'))))"
proof (intro conjI impI allI)
  assume c: "chat_POST e body w = (ChatCreated cid, w')"
  note s = chat_POST_success [OF c assms]
  from s show "redis_kv w' (chats_key u) = None" by simp
  from s show "cid \<in> chat_id ` set (chats_of u w')" by (auto simp: set_chats_of)
  fix e' p b
  assume "session_user e' = Some u \<and> fst (chat_GET e' w') = ChatsListed p b"
  with s have "b = False \<and> p = JArr (map chat_to_json (chats_of u w'))"
    using chat_GET_after_delete [of w' u e' p b] by blast
  then show "b = False" and "p = JArr (map chat_to_json (chats_of u w'))" by simp_all
next
  assume c: "messages_POST e body w = (MessageCreated m, w')"
  note s = messages_POST_success [OF c assms]
  from s show "redis_kv w' (messages_key u (msg_chatId m)) = None" by simp
  from s show "m \<in> set (messages_of (msg_chatId m) w')" by (simp add: set_messages_of)
  fix e' p b
  assume "session_user e' = Some u
     \<and> fst (messages_GET e' (Some (msg_chatId m)) w') = MessagesListed p b"
  with s have "b = False \<and> p = JArr (map message_to_json (messages_of (msg_chatId m) w'))"
    using messages_GET_after_delete [of w' u "msg_chatId m" e' p b] by blast
  then show "b = False" and "p = JArr (map message_to_json (messages_of (msg_chatId m) w'))"
    by simp_all
qed

lemma posting_more:
  "messages_POST later (message_body ''c0'' ''more'' ''USER'') listed = (MessageCreated more_msg, posted)"
  by (simp add: posted_def more_msg_def listed_eq later_def alice_def messages_POST_def io_defs
        ratelimit_limit_def used_def postReqRateLimit_def client_ip_def in_window_def
        req_json_def message_body_def bodySchema_parse_def db_message_create_def
        new_message_def cuid_small redis_del_def record_hit_def messages_key_def)

lemma posted_fields:
  "db_chats posted = db_chats one_chat"
  "db_messages posted = db_messages one_chat @ [more_msg]"
  "redis_kv posted = Map.empty"
  "rate_windows posted (''10.0.0.1'', ReadClass) = [1000]"
  "rate_windows posted (''10.0.0.1'', WriteClass) = [5000, 1000]"
  by (simp_all add: posted_def more_msg_def listed_eq one_chat_eq later_def alice_def
        messages_POST_def io_defs
        ratelimit_limit_def used_def postReqRateLimit_def client_ip_def in_window_def
        req_json_def message_body_def bodySchema_parse_def db_message_create_def
        new_message_def cuid_small redis_del_def record_hit_def messages_key_def)

theorem create_invalidates_callers_entry_witness:
  "session_user later = Some ''alice''
   \<and> redis_kv listed (messages_key ''alice'' ''c0'') = Some (hi_payload, 301000)
   \<and> messages_POST later (message_body ''c0'' ''more'' ''USER'') listed = (MessageCreated more_msg, posted)
   \<and> redis_kv posted (messages_key ''alice'' ''c0'') = None
   \<and> more_msg \<in> set (messages_of ''c0'' posted)
   \<and> fst (messages_GET later (Some ''c0'') posted)
        = MessagesListed (JArr (map message_to_json (messages_of ''c0'' posted))) False"
proof -
  have s: "session_user later = Some ''alice''" by (simp add: later_def alice_def)
  have c: "msg_chatId more_msg = ''c0''" by (simp add: more_msg_def)
  have k: "redis_kv listed (messages_key ''alice'' ''c0'') = Some (hi_payload, 301000)"
    by (simp add: listed_eq messages_key_def)
  have a: "admits getReqRateLimit later posted"
    by (simp add: admits_def used_def getReqRateLimit_def later_def alice_def client_ip_def
          posted_fields)
  have m: "\<not> hit (live (now later) posted (messages_key ''alice'' ''c0''))"
    by (simp add: live_def hit_def posted_fields)
  have g: "fst (messages_GET later (Some ''c0'') posted)
        = MessagesListed (JArr (map message_to_json (messages_of ''c0'' posted))) False"
    using messages_GET_fresh [OF a s _ _ _ _ m] by (simp add: later_def alice_def)
  have "redis_kv posted (messages_key ''alice'' (msg_chatId more_msg)) = None
      \<and> more_msg \<in> set (messages_of (msg_chatId more_msg) posted)"
    using create_invalidates_callers_entry [OF s, of "message_body ''c0'' ''more'' ''USER''"
        listed "''c0''" posted more_msg] posting_more
    by blast
  then show ?thesis
    using s c k g posting_more by simp
qed

section \<open>The completion pipeline\<close>

lemma aiResponse_POST_stream:
  assumes "admits postReqRateLimit e w" and "session_user e = Some u"
    and "aiBodySchema_parse b = Inr (c, content)"
  shows "aiResponse_POST e (Some b) w =
           ((DataStream (fragments e),
             Some \<lparr>task_chatId = c, task_userId = u, task_text = concat (fragments e)\<rparr>),
            record_hit postReqRateLimit e (client_ip e) w)"
  using assms
  by (simp add: aiResponse_POST_def io_defs limit_admitted req_json_def)

lemma onFinish_persists:
  assumes "task_text t \<noteq> []" and "db_ok e" and "task_chatId t \<in> set (map chat_id (db_chats w))"
  shows "onFinish e t w =
           w\<lparr>db_messages := db_messages w @
                 [new_message e (task_text t) ASSISTANT (task_chatId t) (Some (task_userId t)) w],
             next_cuid := Suc (next_cuid w)\<rparr>"
  using assms by (simp add: onFinish_def io_defs db_message_create_def)

lemma onFinish_skips:
  assumes "task_text t = [] \<or> \<not> db_ok e \<or> task_chatId t \<notin> set (map chat_id (db_chats w))"
  shows "onFinish e t w = w"
  using assms by (auto simp: onFinish_def io_defs db_message_create_def)

lemma onFinish_keeps_cache: "redis_kv (onFinish e t w) = redis_kv w"
  by (cases "task_text t = [] \<or> \<not> db_ok e \<or> task_chatId t \<notin> set (map chat_id (db_chats w))")
     (simp_all add: onFinish_skips onFinish_persists)

text \<open>
  Claim C4, as the code has it. For an admitted, authenticated completion request with a
  well-formed body, the response streams every fragment of the backend. If the accumulated
  text is not empty, the chat exists in the store and the store accepts the write, exactly
  one message is appended: role \<open>ASSISTANT\<close>, the concatenated text as content, the given
  chat identifier. If the accumulated text is empty, or the chat does not exist, or the
  store refuses the write, no message is persisted; the streamed response is the same.
\<close>

theorem completion_persists_when_store_accepts:
  assumes "admits postReqRateLimit e w" and "session_user e = Some u"
    and "aiBodySchema_parse b = Inr (c, content)"
  shows "fst (completion e e' (Some b) w) = DataStream (fragments e)
       \<and> (concat (fragments e) \<noteq> [] \<and> db_ok e' \<and> c \<in> set (map chat_id (db_chats w)) \<longrightarrow>
            db_messages (snd (completion e e' (Some b) w))
              = db_messages w @
                [\<lparr>msg_id = cuid (next_cuid w), msg_content = concat (fragments e),
                  msg_role = ASSISTANT, msg_createdAt = now e', msg_chatId = c,
                  msg_userId = Some u\<rparr>])
       \<and> (concat (fragments e) = [] \<or> \<not> db_ok e' \<or> c \<notin> set (map chat_id (db_chats w)) \<longrightarrow>
            db_messages (snd (completion e e' (Some b) w)) = db_messages w)"
proof -
  let ?t = "\<lparr>task_chatId = c, task_userId = u, task_text = concat (fragments e)\<rparr>"
  let ?w = "record_hit postReqRateLimit e (client_ip e) w"
  have c: "completion e e' (Some b) w = (DataStream (fragments e), onFinish e' ?t ?w)"
    by (simp add: completion_def aiResponse_POST_stream [OF assms])
  have p: "db_messages (onFinish e' ?t ?w)
              = db_messages w @
                [\<lparr>msg_id = cuid (next_cuid w), msg_content = concat (fragments e),
                  msg_role = ASSISTANT, msg_createdAt = now e', msg_chatId = c,
                  msg_userId = Some u\<rparr>]"
    if "concat (fragments e) \<noteq> []" "db_ok e'" "c \<in> set (map chat_id (db_chats w))"
    using that by (simp add: onFinish_persists new_message_def)
  have n: "db_messages (onFinish e' ?t ?w) = db_messages w"
    if "concat (fragments e) = [] \<or> \<not> db_ok e' \<or> c \<notin> set (map chat_id (db_chats w))"
    using that by (subst onFinish_skips) auto
  from c p n show ?thesis by simp
qed

lemma prompt_parsed:
  "prompt_body c q = Some (the (prompt_body c q))
   \<and> aiBodySchema_parse (the (prompt_body c q)) = Inr (c, q)"
  by (simp add: prompt_body_def aiBodySchema_parse_def)

lemma listed_fields:
  "db_chats listed = db_chats one_chat" "db_messages listed = db_messages one_chat"
  "next_cuid listed = Suc (Suc 0)"
  by (simp_all add: listed_eq one_chat_eq)

theorem completion_persists_when_store_accepts_witness:
  "admits postReqRateLimit later listed \<and> session_user later = Some ''alice''
   \<and> aiBodySchema_parse (the (prompt_body ''c0'' ''q'')) = Inr (''c0'', ''q'')
   \<and> concat (fragments later) \<noteq> [] \<and> db_ok later
   \<and> ''c0'' \<in> set (map chat_id (db_chats listed))
   \<and> fst (completion later later (prompt_body ''c0'' ''q'') listed) = DataStream [''Hel'', ''lo'']
   \<and> db_messages (snd (completion later later (prompt_body ''c0'' ''q'') listed))
        = db_messages listed @
          [\<lparr>msg_id = ''c2'', msg_content = ''Hello'', msg_role = ASSISTANT,
            msg_createdAt = 5000, msg_chatId = ''c0'', msg_userId = Some ''alice''\<rparr>]"
proof -
  have a: "admits postReqRateLimit later listed"
    using later_admitted_after_listing by simp
  have s: "session_user later = Some ''alice''" by (simp add: later_def alice_def)
  have b: "aiBodySchema_parse (the (prompt_body ''c0'' ''q'')) = Inr (''c0'', ''q'')"
    using prompt_parsed by simp
  have f: "fragments later = [''Hel'', ''lo'']" "db_ok later" "now later = 5000"
    by (simp_all add: later_def alice_def)
  have x: "''c0'' \<in> set (map chat_id (db_chats listed))"
    by (simp add: listed_eq)
  show ?thesis
    using completion_persists_when_store_accepts [OF a s b, of later] a s b f x
      prompt_parsed [of "''c0''" "''q''"]
    by (simp add: listed_fields cuid_small)
qed

text \<open>
  Alice asks for a completion in a chat that does not exist. The backend's \<open>Hello\<close> is
  streamed to her, and no message is persisted.
\<close>

theorem completion_persists_nothing_counterexample:
  "fst (completion later later (prompt_body ''c9'' ''q'') listed) = DataStream [''Hel'', ''lo'']
   \<and> concat (fragments later) = ''Hello''
   \<and> db_messages (snd (completion later later (prompt_body ''c9'' ''q'') listed))
        = db_messages listed"
  by (simp add: completion_def aiResponse_POST_def onFinish_def io_defs ratelimit_limit_def
        used_def postReqRateLimit_def client_ip_def in_window_def req_json_def prompt_body_def
        aiBodySchema_parse_def db_message_create_def record_hit_def listed_eq later_def alice_def)

section \<open>Completion and the cache\<close>

text \<open>
  Claim C2 fails on the code. The \<^verbatim>\<open>onFinish\<close> callback writes the assistant message with
  \<^verbatim>\<open>db.message.create\<close> and never touches Redis, unlike the message route, which
  deletes the caller's entry after the same write. So with alice's entry for her chat
  filled, the completion streams \<open>Hello\<close> and persists it, the entry is still the one from
  before, and her next list within its lifetime is answered from it, without the assistant
  message.
\<close>

theorem completion_leaves_stale_cache_entry:
  "redis_kv (onFinish e t w) = redis_kv w
   \<and> fst (completion later later (prompt_body ''c0'' ''q'') listed) = DataStream [''Hel'', ''lo'']
   \<and> map msg_content (messages_of ''c0'' answered) = [''hi'', ''Hello'']
   \<and> redis_kv answered (messages_key ''alice'' ''c0'') = Some (hi_payload, 301000)
   \<and> fst (messages_GET (later\<lparr>now := 6000\<rparr>) (Some ''c0'') answered)
        = MessagesListed hi_payload True"
proof -
  have c: "completion later later (prompt_body ''c0'' ''q'') listed =
             (DataStream [''Hel'', ''lo''],
              onFinish later \<lparr>task_chatId = ''c0'', task_userId = ''alice'', task_text = ''Hello''\<rparr>
                (record_hit postReqRateLimit later (client_ip later) listed))"
    using later_admitted_after_listing prompt_parsed [of "''c0''" "''q''"]
      aiResponse_POST_stream [of later listed "''alice''" "the (prompt_body ''c0'' ''q'')" "''c0''" "''q''"]
    by (simp add: completion_def later_def alice_def)
  have w: "answered =
             (record_hit postReqRateLimit later (client_ip later) listed)
               \<lparr>db_messages := db_messages listed @
                   [new_message later ''Hello'' ASSISTANT ''c0'' (Some ''alice'') listed],
                 next_cuid := Suc (next_cuid listed)\<rparr>"
    unfolding answered_def c
    by (simp add: onFinish_persists new_message_def later_def alice_def listed_eq)
  have m: "map msg_content (messages_of ''c0'' answered) = [''hi'', ''Hello'']"
    by (simp add: w messages_of_def new_message_def listed_eq later_def alice_def)
  have k: "redis_kv answered (messages_key ''alice'' ''c0'') = Some (hi_payload, 301000)"
    by (simp add: w listed_eq messages_key_def)
  have a: "admits getReqRateLimit (later\<lparr>now := 6000\<rparr>) answered"
    by (simp add: w admits_def used_def getReqRateLimit_def record_hit_def postReqRateLimit_def
          client_ip_def later_def alice_def listed_eq)
  have l: "live (now (later\<lparr>now := 6000\<rparr>)) answered (messages_key ''alice'' ''c0'')
             = Some (JArr [JObj [(''id'', JStr ''c1''), (''content'', JStr ''hi''),
                            (''role'', JStr ''USER''), (''createdAt'', JNum 1000),
                            (''chatId'', JStr ''c0''), (''userId'', JStr ''alice'')]])"
    using k by (simp add: live_def hi_payload_def)
  have g: "fst (messages_GET (later\<lparr>now := 6000\<rparr>) (Some ''c0'') answered)
        = MessagesListed hi_payload True"
    using messages_GET_hit [OF a _ _ _ l]
    by (simp add: later_def alice_def hi_payload_def)
  from c m k g show ?thesis by (simp add: onFinish_keeps_cache)
qed

section \<open>The write budget\<close>

lemma onFinish_keeps_windows: "rate_windows (onFinish e t w) = rate_windows w"
  by (cases "task_text t = [] \<or> \<not> db_ok e \<or> task_chatId t \<notin> set (map chat_id (db_chats w))")
     (simp_all add: onFinish_skips onFinish_persists)

lemma chat_POST_admitted:
  assumes "admits postReqRateLimit e w"
  shows "\<not> is_429 (fst (chat_POST e body w))
       \<and> rate_windows (snd (chat_POST e body w))
           = rate_windows (record_hit postReqRateLimit e (client_ip e) w)"
  using assms
  by (auto simp: chat_POST_def io_defs limit_admitted req_json_def db_chat_create_def
        redis_del_def db_message_create_def split: option.splits sum.splits)

lemma messages_POST_admitted:
  assumes "admits postReqRateLimit e w"
  shows "\<not> is_429 (fst (messages_POST e body w))
       \<and> rate_windows (snd (messages_POST e body w))
           = rate_windows (record_hit postReqRateLimit e (client_ip e) w)"
  using assms
  by (auto simp: messages_POST_def io_defs limit_admitted req_json_def db_message_create_def
        redis_del_def split: option.splits sum.splits prod.splits)

lemma completion_admitted:
  assumes "admits postReqRateLimit e w"
  shows "\<not> is_429 (fst (completion e e' body w))
       \<and> rate_windows (snd (completion e e' body w))
           = rate_windows (record_hit postReqRateLimit e (client_ip e) w)"
  using assms
  by (auto simp: completion_def aiResponse_POST_def io_defs limit_admitted req_json_def
        onFinish_keeps_windows split: option.splits sum.splits prod.splits)

lemma serve_write_admitted:
  assumes "is_write r" and "admits postReqRateLimit e w"
  shows "\<not> is_429 (fst (serve r e w))
       \<and> rate_windows (snd (serve r e w)) (client_ip e, WriteClass)
           = now e # rate_windows w (client_ip e, WriteClass)"
  using assms chat_POST_admitted [of e w] messages_POST_admitted [of e w]
    completion_admitted [of e w e]
  by (cases r) (simp_all add: record_hit_def postReqRateLimit_def)

lemma serve_write_denied:
  assumes "is_write r" and "limiter_ok e" and "\<not> used postReqRateLimit e (client_ip e) w < 10"
  shows "serve r e w = (TooManyRequests 10 (now e + 10000) 0, w)"
  using assms
  by (cases r)
     (simp_all add: chat_POST_def messages_POST_def completion_def aiResponse_POST_def io_defs
        ratelimit_limit_def too_many_def postReqRateLimit_def)

lemma filter_length_mono:
  assumes "\<And>x. x \<in> set xs \<Longrightarrow> P x \<Longrightarrow> Q x"
  shows "length (filter P xs) \<le> length (filter Q xs)"
  using assms by (induction xs) auto

text \<open>
  As long as the hits already recorded that fall in some request's window, plus the
  requests still to come, stay within the budget, every request is admitted and recorded.
\<close>

lemma run_admits_all:
  assumes "\<forall>(r, e) \<in> set rs. is_write r \<and> limiter_ok e \<and> client_ip e = k"
    and "length (filter (\<lambda>h. \<exists>(r, e) \<in> set rs. in_window 10000 (now e) h)
                   (rate_windows w (k, WriteClass))) + length rs \<le> 10"
  shows "(\<forall>out \<in> set (fst (run rs w)). \<not> is_429 out)
       \<and> rate_windows (snd (run rs w)) (k, WriteClass)
           = rev (map (\<lambda>(r, e). now e) rs) @ rate_windows w (k, WriteClass)"
  using assms
proof (induction rs arbitrary: w)
  case Nil
  then show ?case by simp
next
  case (Cons x rs)
  obtain r e where x: "x = (r, e)" by (cases x)
  let ?hits = "rate_windows w (k, WriteClass)"
  from Cons.prems(1) x have r: "is_write r" and l: "limiter_ok e" and k: "client_ip e = k"
    by auto
  have "length (filter (in_window 10000 (now e)) ?hits)
          \<le> length (filter (\<lambda>h. \<exists>(r, e) \<in> set (x # rs). in_window 10000 (now e) h) ?hits)"
    by (rule filter_length_mono) (auto simp: x)
  with Cons.prems(2) have "used postReqRateLimit e (client_ip e) w < 10"
    by (simp add: used_def postReqRateLimit_def k)
  with l have a: "admits postReqRateLimit e w"
    by (simp add: admits_def postReqRateLimit_def)
  obtain out w1 where s: "serve r e w = (out, w1)" by (cases "serve r e w")
  from serve_write_admitted [OF r a] s k
  have o: "\<not> is_429 out" and h1: "rate_windows w1 (k, WriteClass) = now e # ?hits"
    by simp_all
  have "length (filter (\<lambda>h. \<exists>(r, e) \<in> set rs. in_window 10000 (now e) h) ?hits)
          \<le> length (filter (\<lambda>h. \<exists>(r, e) \<in> set (x # rs). in_window 10000 (now e) h) ?hits)"
    by (rule filter_length_mono) auto
  with Cons.prems(2)
  have "length (filter (\<lambda>h. \<exists>(r, e) \<in> set rs. in_window 10000 (now e) h)
                  (rate_windows w1 (k, WriteClass))) + length rs \<le> 10"
    by (simp add: h1)
  with Cons.IH [of w1] Cons.prems(1)
  have ih: "(\<forall>out \<in> set (fst (run rs w1)). \<not> is_429 out)
       \<and> rate_windows (snd (run rs w1)) (k, WriteClass)
           = rev (map (\<lambda>(r, e). now e) rs) @ rate_windows w1 (k, WriteClass)"
    by simp
  obtain outs w2 where t: "run rs w1 = (outs, w2)" by (cases "run rs w1")
  show ?case
    using ih o h1 by (simp add: x s t)
qed

text \<open>
  Claim C6, for the limiter of section 4.1 behind the handlers. Take write-class requests
  (create chat, create message, start completion, in any mix) of one client key with the
  limiter reachable, and let no hit recorded before them lie in the window of any of them.
  If they are at most ten, none is answered 429. If they are ten and all lie in the
  trailing 10 seconds of an eleventh request of the same client, the eleventh is answered
  429 with limit 10, the reset instant, and remaining 0.
\<close>

theorem write_budget_of_ten:
  assumes "\<forall>(r, e) \<in> set rs. is_write r \<and> limiter_ok e \<and> client_ip e = k"
    and "\<forall>(r, e) \<in> set rs. \<forall>h \<in> set (rate_windows w (k, WriteClass)).
           \<not> in_window 10000 (now e) h"
  shows "(length rs \<le> 10 \<longrightarrow> (\<forall>out \<in> set (fst (run rs w)). \<not> is_429 out))
       \<and> (length rs = 10 \<and> is_write r \<and> limiter_ok e \<and> client_ip e = k
          \<and> (\<forall>(r', e') \<in> set rs. in_window 10000 (now e) (now e')) \<longrightarrow>
            fst (serve r e (snd (run rs w))) = TooManyRequests 10 (now e + 10000) 0)"
proof -
  have none: "filter (\<lambda>h. \<exists>(r, e) \<in> set rs. in_window 10000 (now e) h)
                (rate_windows w (k, WriteClass)) = []"
    using assms(2) by (auto simp: filter_empty_conv)
  have all: "(\<forall>out \<in> set (fst (run rs w)). \<not> is_429 out)
       \<and> rate_windows (snd (run rs w)) (k, WriteClass)
           = rev (map (\<lambda>(r, e). now e) rs) @ rate_windows w (k, WriteClass)"
    if "length rs \<le> 10"
    using run_admits_all [OF assms(1), of w] that by (simp add: none)
  have eleventh: "fst (serve r e (snd (run rs w))) = TooManyRequests 10 (now e + 10000) 0"
    if len: "length rs = 10" and r: "is_write r" and l: "limiter_ok e" and k: "client_ip e = k"
      and near: "\<forall>(r', e') \<in> set rs. in_window 10000 (now e) (now e')"
  proof -
    let ?w = "snd (run rs w)"
    from all len have h: "rate_windows ?w (k, WriteClass)
           = rev (map (\<lambda>(r, e). now e) rs) @ rate_windows w (k, WriteClass)"
      by simp
    from near have "filter (in_window 10000 (now e)) (rev (map (\<lambda>(r, e). now e) rs))
                      = rev (map (\<lambda>(r, e). now e) rs)"
      by (auto simp: filter_id_conv)
    then have "length (filter (in_window 10000 (now e)) (rev (map (\<lambda>(r, e). now e) rs))) = 10"
      using len by simp
    then have "\<not> used postReqRateLimit e (client_ip e) ?w < 10"
      by (simp add: used_def postReqRateLimit_def k h)
    from serve_write_denied [OF r l this] show ?thesis by simp
  qed
  from all eleventh show ?thesis by blast
qed

theorem write_budget_of_ten_witness:
  "length burst = 10
   \<and> is_write (CreateChat hi_body) \<and> limiter_ok (alice_at 10900)
   \<and> client_ip (alice_at 10900) = ''10.0.0.1''
   \<and> filter is_429 (fst (run burst no_data)) = []
   \<and> fst (serve (CreateChat hi_body) (alice_at 10900) (snd (run burst no_data)))
        = TooManyRequests 10 20900 0"
proof -
  have h1: "\<forall>(r, e) \<in> set burst. is_write r \<and> limiter_ok e \<and> client_ip e = ''10.0.0.1''"
    by (simp add: burst_def alice_at_def alice_def client_ip_def)
  have h2: "\<forall>(r, e) \<in> set burst. \<forall>h \<in> set (rate_windows no_data (''10.0.0.1'', WriteClass)).
          \<not> in_window 10000 (now e) h"
    by (simp add: no_data_def)
  have n: "length burst = 10" by (simp add: burst_def)
  have e: "is_write (CreateChat hi_body)" "limiter_ok (alice_at 10900)"
    "client_ip (alice_at 10900) = ''10.0.0.1''" "now (alice_at 10900) = 10900"
    by (simp_all add: alice_at_def alice_def client_ip_def)
  have w: "\<forall>(r', e') \<in> set burst. in_window 10000 (now (alice_at 10900)) (now e')"
    by (simp add: burst_def alice_at_def alice_def in_window_def)
  have "(\<forall>out \<in> set (fst (run burst no_data)). \<not> is_429 out)
      \<and> fst (serve (CreateChat hi_body) (alice_at 10900) (snd (run burst no_data)))
          = TooManyRequests 10 20900 0"
    using write_budget_of_ten [OF h1 h2, of "CreateChat hi_body" "alice_at 10900"] n e w
    by simp
  then show ?thesis
    using n e by (simp add: filter_empty_conv)
qed

end
